theory Spec2Isabelle
  imports Complex_Main "HOL-Library.Multiset"
begin

section \<open>Token price allocation (scripts/calculate_token_prices.py)\<close>

text \<open>
  The function \<^verbatim>\<open>calculate_token_prices(product_challenges)\<close> receives the rows of
  \<^verbatim>\<open>product_challenge.csv\<close> as a list of dictionaries, filters the rows that carry a
  positive retail price and a positive initial stock, scales the prices so that
  \<^verbatim>\<open>sum(token_price * stock_initial)\<close> approaches \<^verbatim>\<open>TARGET_SUM\<close>, rounds to integers,
  redistributes the rounding error in two sweeps and writes the result back into the rows.

  Conventions of the model.
  \<^item> A Python \<^verbatim>\<open>str\<close> is the list of its Unicode code points, so that the digits
    and the whitespace of every script are the ones \<^verbatim>\<open>str.isdigit\<close>, \<^verbatim>\<open>float\<close> and
    \<^verbatim>\<open>str.strip\<close> see.
  \<^item> A row is a map from field names to cells. \<^verbatim>\<open>csv.DictReader\<close> stores \<^verbatim>\<open>None\<close> for the
    fields a short row lacks, hence the cell \<open>NoneVal\<close>.
  \<^item> The rows are distinct objects held by the list \<^verbatim>\<open>product_challenges\<close>; a reference to
    a row is its position in that list, and the in-place writes of the source are updates
    of the list at that position.
  \<^item> Python floats are modelled by exact real numbers, and a string of decimal digits by
    its exact value. The source computes with IEEE doubles, which are exact on integers
    up to \<open>2^53\<close> and on dyadic fractions; a theorem below speaks about the source as
    far as its float operations agree with the exact ones, and the inputs of the
    counterexamples below are chosen so that every intermediate value is exact in both
    (small integers and multiples of 1/8).
  \<^item> Of the console output only two figures are kept, the final weighted sum and the
    difference printed with the mismatch warning; the other \<^verbatim>\<open>print\<close> calls have no
    effect on the result and are left out, except where they can raise.
  \<^item> An exception that leaves the function is a value \<open>Inl e\<close>.
  \<^item> The module constant \<^verbatim>\<open>TARGET_SUM\<close> is a parameter of \<open>calculate_token_prices_with\<close>;
    \<open>calculate_token_prices\<close> fixes it to the value of the source.
\<close>

subsection \<open>Python values and errors\<close>

datatype error = AttributeError | ValueError | KeyError | TypeError

text \<open>
  A \<^verbatim>\<open>str\<close> is the list of its Unicode code points; \<open>py\<close> embeds a literal, each
  character standing for the code point of the same number.
\<close>

type_synonym pystr = "nat list"

definition py :: "string \<Rightarrow> pystr" where
  "py s = map of_char s"

datatype cell = Str pystr | NoneVal

type_synonym pyrecord = "pystr \<rightharpoonup> cell"

text \<open>
  \<^verbatim>\<open>str.isspace\<close> on one character: the code points CPython treats as whitespace
  (U+0009 to U+000D, U+001C to U+0020, U+0085, U+00A0, U+1680, U+2000 to U+200A,
  U+2028, U+2029, U+202F, U+205F, U+3000).
\<close>

definition isspace :: "nat \<Rightarrow> bool" where
  "isspace c =
     ((9 \<le> c \<and> c \<le> 13) \<or> (28 \<le> c \<and> c \<le> 32) \<or> c = 133 \<or> c = 160 \<or> c = 5760 \<or>
      (8192 \<le> c \<and> c \<le> 8202) \<or> c = 8232 \<or> c = 8233 \<or> c = 8239 \<or> c = 8287 \<or> c = 12288)"

text \<open>\<^verbatim>\<open>s.strip()\<close>: leading and trailing whitespace removed.\<close>

definition strip :: "pystr \<Rightarrow> pystr" where
  "strip s = rev (dropWhile isspace (rev (dropWhile isspace s)))"

text \<open>
  The decimal digits of Unicode (general category Nd, Unicode 14.0 as in CPython 3.11)
  come in runs of ten consecutive code points for the values 0 to 9; the list holds the
  code point of the zero of each run: the ASCII digits first, then among others the
  Arabic-Indic digits from U+0660 and the fullwidth digits from U+FF10.
\<close>

definition decimal_zeros :: "nat list" where
  "decimal_zeros =
     [48, 1632, 1776, 1984, 2406, 2534, 2662, 2790, 2918, 3046, 3174, 3302, 3430, 3558,
      3664, 3792, 3872, 4160, 4240, 6112, 6160, 6470, 6608, 6784, 6800, 6992, 7088, 7232,
      7248, 42528, 43216, 43264, 43472, 43504, 43600, 44016, 65296, 66720, 68912, 69734,
      69872, 69942, 70096, 70384, 70736, 70864, 71248, 71360, 71472, 71904, 72016, 72784,
      73040, 73120, 92768, 92864, 93008, 120782, 120792, 120802, 120812, 120822, 123200,
      123632, 125264, 130032]"

text \<open>The value of a decimal digit, \<open>None\<close> for any other character.\<close>

definition decimal_digit :: "nat \<Rightarrow> nat option" where
  "decimal_digit c =
     (case find (\<lambda>z. z \<le> c \<and> c < z + 10) decimal_zeros of
        None \<Rightarrow> None
      | Some z \<Rightarrow> Some (c - z))"

definition isdecimal_char :: "nat \<Rightarrow> bool" where
  "isdecimal_char c = (case decimal_digit c of None \<Rightarrow> False | Some d \<Rightarrow> True)"

text \<open>
  The characters of Numeric_Type=Digit that are not decimal digits (superscripts,
  subscripts, circled and parenthesised digits and the like), as ranges of code points.
\<close>

definition other_digits :: "(nat \<times> nat) list" where
  "other_digits =
     [(178, 179), (185, 185), (4969, 4977), (6618, 6618), (8304, 8304), (8308, 8313),
      (8320, 8329), (9312, 9320), (9332, 9340), (9352, 9360), (9450, 9450), (9461, 9469),
      (9471, 9471), (10102, 10110), (10112, 10120), (10122, 10130), (68160, 68163),
      (69216, 69224), (69714, 69722), (127232, 127242)]"

text \<open>
  \<^verbatim>\<open>str.isdigit\<close> on one character: Numeric_Type=Decimal or Numeric_Type=Digit.
\<close>

definition isdigit_char :: "nat \<Rightarrow> bool" where
  "isdigit_char c =
     (isdecimal_char c \<or> list_ex (\<lambda>r. fst r \<le> c \<and> c \<le> snd r) other_digits)"

text \<open>\<^verbatim>\<open>s.isdigit()\<close>: at least one character, and all of them digits.\<close>

definition isdigit :: "pystr \<Rightarrow> bool" where
  "isdigit s = (s \<noteq> [] \<and> list_all isdigit_char s)"

definition digit_value :: "nat \<Rightarrow> nat" where
  "digit_value c = (case decimal_digit c of None \<Rightarrow> 0 | Some d \<Rightarrow> d)"

definition decimal_value :: "pystr \<Rightarrow> nat" where
  "decimal_value s = foldl (\<lambda>acc c. 10 * acc + digit_value c) 0 s"

text \<open>
  \<^verbatim>\<open>float(s)\<close> as the source calls it: on a stripped, non-empty string that passed
  \<^verbatim>\<open>isdigit\<close>. \<^verbatim>\<open>float\<close> reads every Unicode decimal digit as its value, so a string
  of decimal digits is the number it writes; a digit that is not decimal (a superscript
  two, say) passes \<^verbatim>\<open>isdigit\<close> but is refused by \<^verbatim>\<open>float\<close> with ValueError. The result
  here is the exact number: the source's double is that number up to \<open>2^53\<close>, the
  nearest double above it, and \<^verbatim>\<open>inf\<close> from 309 digits on.
\<close>

definition float_of_isdigit :: "pystr \<Rightarrow> error + real" where
  "float_of_isdigit s =
     (if list_all isdecimal_char s then Inr (of_nat (decimal_value s)) else Inl ValueError)"

text \<open>
  \<^verbatim>\<open>pc.get(key, '').strip()\<close>: the default for a missing key is the empty string; a
  \<^verbatim>\<open>None\<close> cell has no \<^verbatim>\<open>strip\<close> (AttributeError).
\<close>

definition get_strip :: "pyrecord \<Rightarrow> pystr \<Rightarrow> error + pystr" where
  "get_strip pc key =
     (case pc key of
        None \<Rightarrow> Inr (strip [])
      | Some NoneVal \<Rightarrow> Inl AttributeError
      | Some (Str s) \<Rightarrow> Inr (strip s))"

text \<open>\<^verbatim>\<open>str(n)\<close> for an integer: ASCII digits, with a minus sign (U+002D) if negative.\<close>

fun str_nat :: "nat \<Rightarrow> pystr" where
  "str_nat n =
     (if n < 10 then [48 + n]
      else str_nat (n div 10) @ [48 + n mod 10])"

declare str_nat.simps [simp del]

definition str_int :: "int \<Rightarrow> pystr" where
  "str_int i = (if i < 0 then 45 # str_nat (nat (- i)) else str_nat (nat i))"

text \<open>
  \<^verbatim>\<open>round(x)\<close> of a float: to the nearest integer, a tie to the even neighbour.
\<close>

definition py_round :: "real \<Rightarrow> int" where
  "py_round x =
     (let f = \<lfloor>x\<rfloor>; d = x - of_int f
      in if d < 1 / 2 then f
         else if 1 / 2 < d then f + 1
         else if even f then f else f + 1)"

text \<open>
  \<^verbatim>\<open>list.sort(key=..., reverse=True)\<close>: the list is reversed, sorted by a stable sort and
  reversed again, so that elements with equal keys keep their original order.
\<close>

definition py_sort_reverse :: "('a \<Rightarrow> real) \<Rightarrow> 'a list \<Rightarrow> 'a list" where
  "py_sort_reverse key xs = rev (sort_key key (rev xs))"

subsection \<open>The validity filter (source lines 37 to 51)\<close>

record valid_record =
  v_record :: nat
  v_pvp :: real
  v_stock_initial :: real

text \<open>One iteration of the filter loop on the row at position \<open>i\<close>.\<close>

definition check_record :: "nat \<Rightarrow> pyrecord \<Rightarrow> error + valid_record option" where
  "check_record i pc =
     (case get_strip pc (py ''pvp_number'') of
        Inl e \<Rightarrow> Inl e
      | Inr pvp \<Rightarrow>
     (case get_strip pc (py ''nr_provogrammers_number'') of
        Inl e \<Rightarrow> Inl e
      | Inr stock_initial \<Rightarrow>
        if pvp \<noteq> [] \<and> isdigit pvp \<and> stock_initial \<noteq> [] \<and> isdigit stock_initial then
          (case float_of_isdigit pvp of
             Inl e \<Rightarrow> Inl e
           | Inr pvp_val \<Rightarrow>
          (case float_of_isdigit stock_initial of
             Inl e \<Rightarrow> Inl e
           | Inr stock_val \<Rightarrow>
             if pvp_val > 0 \<and> stock_val > 0
             then Inr (Some \<lparr>v_record = i, v_pvp = pvp_val, v_stock_initial = stock_val\<rparr>)
             else Inr None))
        else Inr None))"

fun valid_records_from :: "nat \<Rightarrow> pyrecord list \<Rightarrow> error + valid_record list" where
  "valid_records_from i [] = Inr []"
| "valid_records_from i (pc # pcs) =
     (case check_record i pc of
        Inl e \<Rightarrow> Inl e
      | Inr None \<Rightarrow> valid_records_from (Suc i) pcs
      | Inr (Some v) \<Rightarrow>
          (case valid_records_from (Suc i) pcs of
             Inl e \<Rightarrow> Inl e
           | Inr vs \<Rightarrow> Inr (v # vs)))"

definition valid_records :: "pyrecord list \<Rightarrow> error + valid_record list" where
  "valid_records product_challenges = valid_records_from 0 product_challenges"

subsection \<open>Proportional prices and rounding (source lines 60 to 126)\<close>

definition TARGET_SUM :: int where
  "TARGET_SUM = 11000"

definition total_pvp_stock :: "valid_record list \<Rightarrow> real" where
  "total_pvp_stock vs = sum_list (map (\<lambda>r. v_pvp r * v_stock_initial r) vs)"

text \<open>
  An entry of \<^verbatim>\<open>token_allocations\<close>. The keys \<^verbatim>\<open>target_weighted\<close> and
  \<^verbatim>\<open>target_token_price\<close> are added by the second loop; until then the model holds 0
  there, and nothing reads them before they are set.
\<close>

record alloc =
  a_record :: nat
  token_price_float :: real
  token_price_int :: int
  stock_initial :: real
  weighted_value :: real
  target_weighted :: real
  target_token_price :: real

text \<open>The first loop (lines 85 to 102): price times the scaling factor, rounded, at least 1.\<close>

definition first_allocation :: "real \<Rightarrow> valid_record \<Rightarrow> alloc" where
  "first_allocation k r =
     (let tpf = v_pvp r * k;
          tpi = py_round tpf;
          tpi = (if tpi < 1 then 1 else tpi);
          wv = of_int tpi * v_stock_initial r
      in \<lparr>a_record = v_record r, token_price_float = tpf, token_price_int = tpi,
          stock_initial = v_stock_initial r, weighted_value = wv,
          target_weighted = 0, target_token_price = 0\<rparr>)"

text \<open>
  The second loop (lines 111 to 117) reads the price from the row again:
  \<^verbatim>\<open>float(pvp) if pvp else 0\<close> on the stripped field. The products and quotients
  below are the exact ones. The source's doubles can miss them in the last bit (a share
  that is exactly 275/2 can come out as 137.49999999999997), which decides a rounding at
  a tie and the order of two entries of equal error; the properties below that depend on
  the value of a proportional price are therefore stated for exact arithmetic, the
  others hold for any list of entries.
\<close>

definition reread_pvp :: "pyrecord \<Rightarrow> error + real" where
  "reread_pvp pc =
     (case get_strip pc (py ''pvp_number'') of
        Inl e \<Rightarrow> Inl e
      | Inr pvp \<Rightarrow> if pvp \<noteq> [] then float_of_isdigit pvp else Inr 0)"

definition set_target :: "pyrecord list \<Rightarrow> real \<Rightarrow> int \<Rightarrow> alloc \<Rightarrow> error + alloc" where
  "set_target pcs tps target a =
     (case reread_pvp (pcs ! a_record a) of
        Inl e \<Rightarrow> Inl e
      | Inr pvp_val \<Rightarrow>
          (let stock = stock_initial a;
               tw = (pvp_val * stock / tps) * of_int target
           in Inr (a\<lparr>target_weighted := tw,
                     target_token_price := (if stock > 0 then tw / stock else 0)\<rparr>)))"

fun set_targets :: "pyrecord list \<Rightarrow> real \<Rightarrow> int \<Rightarrow> alloc list \<Rightarrow> error + alloc list" where
  "set_targets pcs tps target [] = Inr []"
| "set_targets pcs tps target (a # as) =
     (case set_target pcs tps target a of
        Inl e \<Rightarrow> Inl e
      | Inr a' \<Rightarrow>
          (case set_targets pcs tps target as of
             Inl e \<Rightarrow> Inl e
           | Inr as' \<Rightarrow> Inr (a' # as')))"

text \<open>The third loop (lines 120 to 122): the initial rounding, with the floor of 1.\<close>

definition round_target :: "alloc \<Rightarrow> alloc" where
  "round_target a =
     (let tpi = max 1 (py_round (target_token_price a))
      in a\<lparr>token_price_int := tpi, weighted_value := of_int tpi * stock_initial a\<rparr>)"

definition weighted_sum :: "alloc list \<Rightarrow> real" where
  "weighted_sum allocs = sum_list (map weighted_value allocs)"

subsection \<open>Redistribution of the rounding error (source lines 128 to 176)\<close>

definition increase :: "alloc \<Rightarrow> alloc" where
  "increase a =
     (let tpi = token_price_int a + 1
      in a\<lparr>token_price_int := tpi, weighted_value := of_int tpi * stock_initial a\<rparr>)"

definition decrease :: "alloc \<Rightarrow> alloc" where
  "decrease a =
     (let tpi = token_price_int a - 1
      in a\<lparr>token_price_int := tpi, weighted_value := of_int tpi * stock_initial a\<rparr>)"

text \<open>
  The sweep of lines 140 to 144; the state is the list and the variable
  \<^verbatim>\<open>difference\<close>.
\<close>

fun increase_loop :: "real \<Rightarrow> alloc list \<Rightarrow> alloc list \<times> real" where
  "increase_loop difference [] = ([], difference)"
| "increase_loop difference (a # as) =
     (if difference > 0 then
        (let r = increase_loop (difference - stock_initial a) as
         in (increase a # fst r, snd r))
      else
        (let r = increase_loop difference as
         in (a # fst r, snd r)))"

text \<open>The sweep of lines 147 to 151.\<close>

fun decrease_loop :: "real \<Rightarrow> alloc list \<Rightarrow> alloc list \<times> real" where
  "decrease_loop difference [] = ([], difference)"
| "decrease_loop difference (a # as) =
     (if difference < 0 \<and> token_price_int a > 1 then
        (let r = decrease_loop (difference + stock_initial a) as
         in (decrease a # fst r, snd r))
      else
        (let r = decrease_loop difference as
         in (a # fst r, snd r)))"

definition rounding_error :: "alloc \<Rightarrow> real" where
  "rounding_error x = \<bar>target_token_price x - of_int (token_price_int x)\<bar>"

text \<open>Lines 132 to 151: the sort by rounding error and one of the two sweeps.\<close>

definition coarse_pass :: "real \<Rightarrow> alloc list \<Rightarrow> alloc list \<times> real" where
  "coarse_pass difference allocs =
     (let sorted = py_sort_reverse rounding_error allocs
      in if difference > 0 then increase_loop difference sorted
         else decrease_loop difference sorted)"

text \<open>
  The body of the loop of lines 162 to 173: one entry and the remaining difference.
\<close>

definition fine_step :: "real \<Rightarrow> alloc \<Rightarrow> alloc \<times> real" where
  "fine_step remaining_diff a =
     (let stock = stock_initial a
      in if remaining_diff > 0 then (increase a, remaining_diff - stock)
         else if remaining_diff < 0 \<and> token_price_int a > 1
         then (decrease a, remaining_diff + stock)
         else (a, remaining_diff))"

text \<open>
  The loop of lines 162 to 176, which leaves at the first moment the remaining
  difference is zero.
\<close>

fun fine_loop :: "real \<Rightarrow> alloc list \<Rightarrow> alloc list \<times> real" where
  "fine_loop remaining_diff [] = ([], remaining_diff)"
| "fine_loop remaining_diff (a # as) =
     (let s = fine_step remaining_diff a
      in if \<bar>snd s\<bar> = 0 then (fst s # as, snd s)
         else (let r = fine_loop (snd s) as in (fst s # fst r, snd r)))"

text \<open>Lines 154 to 176: the second sort, by stock, and the fine sweep.\<close>

definition fine_pass :: "int \<Rightarrow> alloc list \<Rightarrow> alloc list" where
  "fine_pass target allocs =
     (let current_sum = weighted_sum allocs;
          remaining_diff = of_int target - current_sum
      in if \<bar>remaining_diff\<bar> > 0
         then fst (fine_loop remaining_diff (sort_key stock_initial allocs))
         else allocs)"

text \<open>Lines 125 to 176: both passes, entered when the initial difference is not zero.\<close>

definition redistribute :: "int \<Rightarrow> alloc list \<Rightarrow> alloc list" where
  "redistribute target allocs =
     (let current_sum = weighted_sum allocs;
          difference = of_int target - current_sum
      in if difference \<noteq> 0
         then fine_pass target (fst (coarse_pass difference allocs))
         else allocs)"

text \<open>
  Lines 60 to 122 for a non-empty list of valid rows whose total is not zero: the
  allocations after the initial rounding.
\<close>

definition initial_rounding ::
  "int \<Rightarrow> pyrecord list \<Rightarrow> valid_record list \<Rightarrow> error + alloc list" where
  "initial_rounding target pcs vs =
     (let tps = total_pvp_stock vs;
          k = of_int target / tps;
          token_allocations = map (first_allocation k) vs
      in case set_targets pcs tps target token_allocations of
           Inl e \<Rightarrow> Inl e
         | Inr allocs \<Rightarrow> Inr (map round_target allocs))"

text \<open>Lines 60 to 176: the allocations after both redistribution passes.\<close>

definition allocate :: "int \<Rightarrow> pyrecord list \<Rightarrow> valid_record list \<Rightarrow> error + alloc list" where
  "allocate target pcs vs =
     (case initial_rounding target pcs vs of
        Inl e \<Rightarrow> Inl e
      | Inr allocs \<Rightarrow> Inr (redistribute target allocs))"

subsection \<open>Writing the rows and the result (source lines 178 to 216)\<close>

text \<open>
  The loop of lines 192 to 209: the two fields are written, then the report line reads
  \<^verbatim>\<open>record['_id'][:30]\<close>, which raises KeyError when the row has no such key and
  TypeError when the cell is \<^verbatim>\<open>None\<close>. (Line 195 reads the price once more for the
  report only.)
\<close>

definition write_record :: "int \<Rightarrow> pyrecord \<Rightarrow> pyrecord" where
  "write_record tokens r =
     r((py ''token_price_number'') \<mapsto> Str (str_int tokens),
       (py ''price_currency_option_currency_type'') \<mapsto> Str (py ''token''))"

fun update_records :: "alloc list \<Rightarrow> pyrecord list \<Rightarrow> error + pyrecord list" where
  "update_records [] pcs = Inr pcs"
| "update_records (a # as) pcs =
     (let i = a_record a;
          r = write_record (token_price_int a) (pcs ! i)
      in case r (py ''_id'') of
           None \<Rightarrow> Inl KeyError
         | Some NoneVal \<Rightarrow> Inl TypeError
         | Some (Str s) \<Rightarrow> update_records as (pcs[i := r]))"

text \<open>
  What a call leaves behind: the returned boolean, the rows after the in-place writes,
  and the two figures the function only prints: the final weighted sum (line 180) and,
  when it differs from the target, the difference \<^verbatim>\<open>final_sum - TARGET_SUM\<close> of the
  warning (line 183).
\<close>

record outcome =
  returned :: bool
  records :: "pyrecord list"
  printed_final_sum :: "real option"
  printed_mismatch :: "real option"

definition failure :: "pyrecord list \<Rightarrow> outcome" where
  "failure pcs =
     \<lparr>returned = False, records = pcs, printed_final_sum = None, printed_mismatch = None\<rparr>"

definition calculate_token_prices_with :: "int \<Rightarrow> pyrecord list \<Rightarrow> error + outcome" where
  "calculate_token_prices_with target product_challenges =
     (case valid_records product_challenges of
        Inl e \<Rightarrow> Inl e
      | Inr vs \<Rightarrow>
          if vs = [] then Inr (failure product_challenges)
          else if total_pvp_stock vs = 0 then Inr (failure product_challenges)
          else
            (case allocate target product_challenges vs of
               Inl e \<Rightarrow> Inl e
             | Inr token_allocations \<Rightarrow>
                 (let final_sum = weighted_sum token_allocations
                  in case update_records token_allocations product_challenges of
                       Inl e \<Rightarrow> Inl e
                     | Inr pcs' \<Rightarrow>
                         Inr \<lparr>returned = True, records = pcs',
                              printed_final_sum = Some final_sum,
                              printed_mismatch =
                                (if final_sum \<noteq> of_int target
                                 then Some (final_sum - of_int target) else None)\<rparr>)))"

definition calculate_token_prices :: "pyrecord list \<Rightarrow> error + outcome" where
  "calculate_token_prices product_challenges =
     calculate_token_prices_with TARGET_SUM product_challenges"

text \<open>A row of the table with an identifier, a retail price and an initial stock.\<close>

definition row :: "pystr \<Rightarrow> pystr \<Rightarrow> pystr \<Rightarrow> pyrecord" where
  "row ident pvp stock =
     [(py ''_id'') \<mapsto> Str ident, (py ''pvp_number'') \<mapsto> Str pvp, (py ''nr_provogrammers_number'') \<mapsto> Str stock]"


subsection \<open>Notions used in the statements\<close>

text \<open>
  The entry of \<^verbatim>\<open>token_allocations\<close> that the first two loops build for a kept row, written
  from the kept row alone (the second loop reads the same price from the row again).
\<close>

definition targeted :: "real \<Rightarrow> int \<Rightarrow> real \<Rightarrow> valid_record \<Rightarrow> alloc" where
  "targeted tps target k v =
     (let tw = (v_pvp v * v_stock_initial v / tps) * of_int target
      in (first_allocation k v)\<lparr>target_weighted := tw,
           target_token_price := (if v_stock_initial v > 0 then tw / v_stock_initial v else 0)\<rparr>)"

text \<open>
  An entry of \<^verbatim>\<open>token_allocations\<close> for the row at position \<open>i\<close>, with the unrounded
  proportional price \<open>ideal\<close>, the integer price \<open>tokens\<close> and the stock \<open>stock\<close>.
\<close>

definition entry :: "nat \<Rightarrow> real \<Rightarrow> int \<Rightarrow> real \<Rightarrow> alloc" where
  "entry i ideal tokens stock =
     \<lparr>a_record = i, token_price_float = ideal, token_price_int = tokens,
      stock_initial = stock, weighted_value = of_int tokens * stock,
      target_weighted = ideal * stock, target_token_price = ideal\<rparr>"

text \<open>
  The coarse pass in the words of the specification, to be compared with \<open>coarse_pass\<close>.
  The items are ordered by descending absolute rounding error, items of equal error in
  their original order. The ordered list is walked once. The sign of the residual at the
  start fixes the direction: while the residual is positive the next item is raised by 1
  and its multiplicity is subtracted from the residual; while it is negative the next
  item is lowered by 1, only if its value is above 1, and its multiplicity is added back.
  An item met when the residual no longer has the sign it started with is left alone.
\<close>

definition adjust :: "int \<Rightarrow> alloc \<Rightarrow> alloc" where
  "adjust delta item =
     item\<lparr>token_price_int := token_price_int item + delta,
          weighted_value := of_int (token_price_int item + delta) * stock_initial item\<rparr>"

definition matching_sign :: "real \<Rightarrow> real \<Rightarrow> bool" where
  "matching_sign initial residual =
     ((0 < initial \<and> 0 < residual) \<or> (initial < 0 \<and> residual < 0))"

fun coarse_walk :: "real \<Rightarrow> real \<Rightarrow> alloc list \<Rightarrow> alloc list \<times> real" where
  "coarse_walk initial residual [] = ([], residual)"
| "coarse_walk initial residual (item # rest) =
     (if matching_sign initial residual \<and> 0 < residual then
        (let r = coarse_walk initial (residual - stock_initial item) rest
         in (adjust 1 item # fst r, snd r))
      else if matching_sign initial residual \<and> residual < 0 \<and> 1 < token_price_int item then
        (let r = coarse_walk initial (residual + stock_initial item) rest
         in (adjust (- 1) item # fst r, snd r))
      else
        (let r = coarse_walk initial residual rest
         in (item # fst r, snd r)))"

definition coarse_pass_spec :: "real \<Rightarrow> alloc list \<Rightarrow> alloc list \<times> real" where
  "coarse_pass_spec residual items =
     coarse_walk residual residual (sort_key (\<lambda>x. - rounding_error x) items)"

text \<open>
  An entry of multiplicity \<open>m\<close> whose \<^verbatim>\<open>weighted_value\<close> is in step with its integer
  price.
\<close>

definition synced :: "nat \<Rightarrow> alloc \<Rightarrow> bool" where
  "synced m a =
     (stock_initial a = of_nat m \<and> weighted_value a = of_int (token_price_int a) * of_nat m)"


section \<open>Properties\<close>

subsection \<open>Unfolding the model on concrete rows\<close>

lemmas filter_defs = valid_records_def check_record_def row_def get_strip_def strip_def
  isspace_def isdigit_def isdigit_char_def isdecimal_char_def float_of_isdigit_def
  decimal_value_def digit_value_def decimal_digit_def decimal_zeros_def other_digits_def
  py_def

lemmas out_defs = calculate_token_prices_def calculate_token_prices_with_def TARGET_SUM_def
  failure_def

lemmas alloc_defs = initial_rounding_def total_pvp_stock_def first_allocation_def
  set_target_def round_target_def py_round_def Let_def

subsection \<open>The validity filter\<close>

lemma py_eq_iff [simp]: "py s = py t \<longleftrightarrow> s = t"
  by (simp add: py_def inj_map_eq_map inj_of_char)

lemma str_int_small: "str_int 1 = py ''1''" "str_int 2 = py ''2''"
  by (simp_all add: str_int_def str_nat.simps py_def)

lemma strip_Nil: "strip [] = []"
  by (simp add: strip_def)

lemma check_record_Some:
  assumes "check_record i pc = Inr (Some v)"
  shows "v_record v = i \<and> 0 < v_pvp v \<and> 0 < v_stock_initial v \<and>
    (\<exists>p s. pc (py ''pvp_number'') = Some (Str p) \<and> pc (py ''nr_provogrammers_number'') = Some (Str s) \<and>
       strip p \<noteq> [] \<and> list_all isdecimal_char (strip p) \<and>
       v_pvp v = real (decimal_value (strip p)) \<and>
       strip s \<noteq> [] \<and> list_all isdecimal_char (strip s) \<and>
       v_stock_initial v = real (decimal_value (strip s)))"
  using assms
  by (auto simp: check_record_def get_strip_def float_of_isdigit_def strip_Nil
      split: option.splits cell.splits sum.splits if_splits)

lemma valid_records_from_member:
  "valid_records_from i pcs = Inr vs \<Longrightarrow> v \<in> set vs \<Longrightarrow>
     i \<le> v_record v \<and> v_record v < i + length pcs \<and>
     check_record (v_record v) (pcs ! (v_record v - i)) = Inr (Some v)"
proof (induction pcs arbitrary: i vs)
  case Nil
  then show ?case by simp
next
  case (Cons pc pcs)
  show ?case
  proof (cases "check_record i pc")
    case (Inl e)
    with Cons.prems show ?thesis by simp
  next
    case (Inr r)
    show ?thesis
    proof (cases r)
      case None
      with Inr Cons.prems have "valid_records_from (Suc i) pcs = Inr vs" by simp
      from Cons.IH [OF this Cons.prems(2)] show ?thesis
        by (auto simp: Suc_diff_le)
    next
      case (Some w)
      with Inr Cons.prems obtain ws where
        ws: "valid_records_from (Suc i) pcs = Inr ws" and vs: "vs = w # ws"
        by (auto split: sum.splits)
      show ?thesis
      proof (cases "v = w")
        case True
        from Inr Some have "check_record i pc = Inr (Some w)" by simp
        moreover from check_record_Some [OF this] have "v_record w = i" by simp
        ultimately show ?thesis using True by simp
      next
        case False
        with vs Cons.prems(2) have "v \<in> set ws" by simp
        from Cons.IH [OF ws this] show ?thesis
          by (auto simp: Suc_diff_le)
      qed
    qed
  qed
qed

lemma valid_records_member:
  assumes "valid_records pcs = Inr vs" and "v \<in> set vs"
  shows "v_record v < length pcs"
    and "check_record (v_record v) (pcs ! v_record v) = Inr (Some v)"
  using valid_records_from_member [of 0 pcs vs v] assms
  by (simp_all add: valid_records_def)

lemma valid_records_positive:
  assumes "valid_records pcs = Inr vs" and "v \<in> set vs"
  shows "0 < v_pvp v \<and> 0 < v_stock_initial v"
  using check_record_Some [OF valid_records_member(2) [OF assms]] by simp

lemma total_pvp_stock_positive:
  assumes "\<And>v. v \<in> set vs \<Longrightarrow> 0 < v_pvp v \<and> 0 < v_stock_initial v" and "vs \<noteq> []"
  shows "0 < total_pvp_stock vs"
  using assms
proof (induction vs)
  case Nil
  then show ?case by simp
next
  case (Cons v vs)
  have hd: "0 < v_pvp v * v_stock_initial v"
    using Cons.prems(1) [of v] by simp
  show ?case
  proof (cases "vs = []")
    case True
    with hd show ?thesis by (simp add: total_pvp_stock_def)
  next
    case False
    have "0 < total_pvp_stock vs"
      using Cons.IH Cons.prems(1) False by simp
    with hd show ?thesis by (simp add: total_pvp_stock_def)
  qed
qed

lemma two_rows_valid:
  "valid_records [row (py ''a'') (py ''1'') (py ''5000''), row (py ''b'') (py ''1'') (py ''3000'')] =
     Inr [\<lparr>v_record = 0, v_pvp = 1, v_stock_initial = 5000\<rparr>,
          \<lparr>v_record = 1, v_pvp = 1, v_stock_initial = 3000\<rparr>]"
  by (simp add: filter_defs)

lemma no_valid_rows:
  "valid_records [row (py ''a'') (py ''1.5'') (py ''3''), row (py ''b'') (py ''0'') (py ''7''), Map.empty] = Inr []"
  by (simp add: filter_defs)

text \<open>
  C8. Whenever the filter keeps at least one row, every kept row has a positive price and
  a positive stock, so the total \<^verbatim>\<open>sum(pvp * stock_initial)\<close> is positive: the test
  \<^verbatim>\<open>total_pvp_stock == 0\<close> of line 63 is never true, and the divisions by the total
  (the factor \<^verbatim>\<open>k\<close> and every \<^verbatim>\<open>target_weighted\<close>) have a non-zero divisor.
\<close>

theorem zero_total_guard_unreachable:
  assumes "valid_records product_challenges = Inr vs" and "vs \<noteq> []"
  shows "(\<forall>v \<in> set vs. 0 < v_pvp v \<and> 0 < v_stock_initial v) \<and> 0 < total_pvp_stock vs
    \<and> total_pvp_stock vs \<noteq> 0"
proof -
  have pos: "\<And>v. v \<in> set vs \<Longrightarrow> 0 < v_pvp v \<and> 0 < v_stock_initial v"
    using valid_records_positive [OF assms(1)] .
  from total_pvp_stock_positive [OF this assms(2)] pos show ?thesis by simp
qed

theorem zero_total_guard_unreachable_witness:
  "valid_records [row (py ''a'') (py ''1'') (py ''5000''), row (py ''b'') (py ''1'') (py ''3000'')] =
     Inr [\<lparr>v_record = 0, v_pvp = 1, v_stock_initial = 5000\<rparr>,
          \<lparr>v_record = 1, v_pvp = 1, v_stock_initial = 3000\<rparr>]
   \<and> total_pvp_stock [\<lparr>v_record = 0, v_pvp = 1, v_stock_initial = 5000\<rparr>,
          \<lparr>v_record = 1, v_pvp = 1, v_stock_initial = 3000\<rparr>] = 8000
   \<and> 0 < total_pvp_stock [\<lparr>v_record = 0, v_pvp = 1, v_stock_initial = 5000\<rparr>,
          \<lparr>v_record = 1, v_pvp = 1, v_stock_initial = 3000\<rparr>]"
  using zero_total_guard_unreachable [OF two_rows_valid] two_rows_valid
  by (simp add: total_pvp_stock_def)

text \<open>
  C10, as the source has it. The filter strips both fields before it tests them, so a
  field with surrounding whitespace is accepted: the row whose price field is a blank
  followed by \<^verbatim>\<open>5\<close> takes part although that field is not a string of digits.
\<close>

theorem padded_price_counterexample:
  "valid_records [row (py ''a'') (py '' 5'') (py ''1'')] = Inr [\<lparr>v_record = 0, v_pvp = 5, v_stock_initial = 1\<rparr>]
   \<and> \<not> isdigit (py '' 5'')"
  by (simp add: filter_defs)

lemma check_record_Some_isdigit:
  assumes "check_record i pc = Inr (Some v)"
  shows "\<exists>p s. pc (py ''pvp_number'') = Some (Str p) \<and>
       pc (py ''nr_provogrammers_number'') = Some (Str s) \<and>
       isdigit (strip p) \<and> isdigit (strip s)"
  using assms
  by (auto simp: check_record_def get_strip_def strip_Nil
      split: option.splits cell.splits sum.splits if_splits)

lemma check_record_non_digit:
  assumes "pc (py ''pvp_number'') = Some (Str p)"
    and "\<not> list_all isdigit_char (strip p)"
    and "pc (py ''nr_provogrammers_number'') \<noteq> Some NoneVal"
  shows "check_record i pc = Inr None"
  using assms
  by (auto simp: check_record_def get_strip_def isdigit_def
      split: option.splits cell.splits sum.splits)

text \<open>
  Digits beyond ASCII count: the price written with the Arabic-Indic three (U+0663) and
  the fullwidth five (U+FF15) is the weight 35, while the superscript two (U+00B2)
  passes \<^verbatim>\<open>isdigit\<close> and makes \<^verbatim>\<open>float\<close> raise.
\<close>

lemma unicode_digits_kept:
  "valid_records [row i1 [1635, 65301] (py ''1'')] =
     Inr [\<lparr>v_record = 0, v_pvp = 35, v_stock_initial = 1\<rparr>]"
  by (simp add: filter_defs)

lemma superscript_digit_raises:
  "valid_records [row i1 [178] (py ''1'')] = Inl ValueError"
  by (simp add: filter_defs)

text \<open>
  C10, amended. When the filter completes, a row takes part in the allocation only if
  its price field and its stock field are strings that, once leading and trailing
  whitespace is stripped, are non-empty strings of digits (\<^verbatim>\<open>str.isdigit\<close>); both are
  then strings of decimal digits, since \<^verbatim>\<open>float\<close> accepted them, the weight and the
  multiplicity used are the numbers they write, and both are positive integers. A row
  whose stripped price has a character that is not a digit (a decimal point, a sign, a
  separator, a letter) is not among the kept rows, and the filter passes over it without
  raising as long as its stock cell is not \<^verbatim>\<open>None\<close>.
\<close>

theorem filter_only_stripped_digits:
  "(valid_records product_challenges = Inr vs \<longrightarrow> v \<in> set vs \<longrightarrow>
      v_record v < length product_challenges \<and>
      (\<exists>p s. (product_challenges ! v_record v) (py ''pvp_number'') = Some (Str p) \<and>
         (product_challenges ! v_record v) (py ''nr_provogrammers_number'') = Some (Str s) \<and>
         isdigit (strip p) \<and> list_all isdecimal_char (strip p) \<and>
         v_pvp v = real (decimal_value (strip p)) \<and> 0 < decimal_value (strip p) \<and>
         isdigit (strip s) \<and> list_all isdecimal_char (strip s) \<and>
         v_stock_initial v = real (decimal_value (strip s)) \<and> 0 < decimal_value (strip s))) \<and>
   (valid_records product_challenges = Inr vs \<longrightarrow> i < length product_challenges \<longrightarrow>
      (product_challenges ! i) (py ''pvp_number'') = Some (Str q) \<longrightarrow>
      \<not> list_all isdigit_char (strip q) \<longrightarrow> i \<notin> v_record ` set vs) \<and>
   (pc (py ''pvp_number'') = Some (Str q) \<longrightarrow> \<not> list_all isdigit_char (strip q) \<longrightarrow>
      pc (py ''nr_provogrammers_number'') \<noteq> Some NoneVal \<longrightarrow> check_record j pc = Inr None)"
proof (intro conjI impI)
  assume valid: "valid_records product_challenges = Inr vs" and v: "v \<in> set vs"
  show "v_record v < length product_challenges"
    using valid_records_member(1) [OF valid v] .
  note c = valid_records_member(2) [OF valid v]
  from check_record_Some [OF c]
  obtain p s where
    f: "(product_challenges ! v_record v) (py ''pvp_number'') = Some (Str p)"
       "(product_challenges ! v_record v) (py ''nr_provogrammers_number'') = Some (Str s)"
       "list_all isdecimal_char (strip p)"
       "v_pvp v = real (decimal_value (strip p))"
       "list_all isdecimal_char (strip s)"
       "v_stock_initial v = real (decimal_value (strip s))"
    and pos: "0 < v_pvp v" "0 < v_stock_initial v"
    by blast
  from check_record_Some_isdigit [OF c] f(1,2)
  have d: "isdigit (strip p)" "isdigit (strip s)" by auto
  from pos f(4) f(6) have "0 < decimal_value (strip p)" "0 < decimal_value (strip s)"
    by simp_all
  with f d show "\<exists>p s. (product_challenges ! v_record v) (py ''pvp_number'') = Some (Str p) \<and>
         (product_challenges ! v_record v) (py ''nr_provogrammers_number'') = Some (Str s) \<and>
         isdigit (strip p) \<and> list_all isdecimal_char (strip p) \<and>
         v_pvp v = real (decimal_value (strip p)) \<and> 0 < decimal_value (strip p) \<and>
         isdigit (strip s) \<and> list_all isdecimal_char (strip s) \<and>
         v_stock_initial v = real (decimal_value (strip s)) \<and> 0 < decimal_value (strip s)"
    by blast
next
  assume valid: "valid_records product_challenges = Inr vs"
    and q: "(product_challenges ! i) (py ''pvp_number'') = Some (Str q)"
    and nd: "\<not> list_all isdigit_char (strip q)"
  show "i \<notin> v_record ` set vs"
  proof
    assume "i \<in> v_record ` set vs"
    then obtain w where w: "w \<in> set vs" "v_record w = i" by auto
    from check_record_Some_isdigit [OF valid_records_member(2) [OF valid w(1)]] w(2) q
    have "isdigit (strip q)" by auto
    with nd show False by (simp add: isdigit_def)
  qed
next
  assume "pc (py ''pvp_number'') = Some (Str q)" "\<not> list_all isdigit_char (strip q)"
    "pc (py ''nr_provogrammers_number'') \<noteq> Some NoneVal"
  then show "check_record j pc = Inr None"
    by (rule check_record_non_digit)
qed

lemma mixed_rows_valid:
  "valid_records [row (py ''a'') (py '' 5'') (py ''1''), row (py ''b'') (py ''1.5'') (py ''3'')] =
     Inr [\<lparr>v_record = 0, v_pvp = 5, v_stock_initial = 1\<rparr>]"
  by (simp add: filter_defs)

lemma point_not_digit: "\<not> list_all isdigit_char (strip (py ''1.5''))"
  by (simp add: filter_defs)

theorem filter_only_stripped_digits_witness:
  "valid_records [row (py ''a'') (py '' 5'') (py ''1''), row (py ''b'') (py ''1.5'') (py ''3'')] =
     Inr [\<lparr>v_record = 0, v_pvp = 5, v_stock_initial = 1\<rparr>]
   \<and> (\<exists>p s. row (py ''a'') (py '' 5'') (py ''1'') (py ''pvp_number'') = Some (Str p) \<and>
         row (py ''a'') (py '' 5'') (py ''1'') (py ''nr_provogrammers_number'') = Some (Str s) \<and>
         isdigit (strip p) \<and> 0 < decimal_value (strip p) \<and>
         isdigit (strip s) \<and> 0 < decimal_value (strip s))
   \<and> \<not> list_all isdigit_char (strip (py ''1.5''))
   \<and> 1 \<notin> v_record ` set [\<lparr>v_record = 0, v_pvp = 5, v_stock_initial = 1\<rparr>]
   \<and> check_record 1 (row (py ''b'') (py ''1.5'') (py ''3'')) = Inr None"
proof -
  let ?R = "[row (py ''a'') (py '' 5'') (py ''1''), row (py ''b'') (py ''1.5'') (py ''3'')]"
  have q: "(?R ! 1) (py ''pvp_number'') = Some (Str (py ''1.5''))"
    by (simp add: row_def)
  have q': "row (py ''b'') (py ''1.5'') (py ''3'') (py ''pvp_number'') = Some (Str (py ''1.5''))"
    by (simp add: row_def)
  have s: "row (py ''b'') (py ''1.5'') (py ''3'') (py ''nr_provogrammers_number'') \<noteq> Some NoneVal"
    by (simp add: row_def)
  note t = filter_only_stripped_digits [of ?R "[\<lparr>v_record = 0, v_pvp = 5, v_stock_initial = 1\<rparr>]"
      "\<lparr>v_record = 0, v_pvp = 5, v_stock_initial = 1\<rparr>" 1 "py ''1.5''"
      "row (py ''b'') (py ''1.5'') (py ''3'')" 1]
  from t mixed_rows_valid q q' s point_not_digit show ?thesis
    by auto
qed

text \<open>
  C4. When the filter leaves no row, or the total of the kept rows is zero, the call
  returns False and the list of rows is what it was: no field of any row is written.
\<close>

theorem invalid_input_returns_failure:
  assumes "valid_records product_challenges = Inr vs" and "vs = [] \<or> total_pvp_stock vs = 0"
  shows "calculate_token_prices product_challenges =
    Inr \<lparr>returned = False, records = product_challenges,
         printed_final_sum = None, printed_mismatch = None\<rparr>"
  using assms by (auto simp: out_defs)

theorem invalid_input_returns_failure_witness:
  "valid_records [row (py ''a'') (py ''1.5'') (py ''3''), row (py ''b'') (py ''0'') (py ''7''), Map.empty] = Inr [] \<and>
   calculate_token_prices [row (py ''a'') (py ''1.5'') (py ''3''), row (py ''b'') (py ''0'') (py ''7''), Map.empty] =
    Inr \<lparr>returned = False, records = [row (py ''a'') (py ''1.5'') (py ''3''), row (py ''b'') (py ''0'') (py ''7''), Map.empty],
         printed_final_sum = None, printed_mismatch = None\<rparr>"
  using invalid_input_returns_failure [OF no_valid_rows] no_valid_rows by simp

subsection \<open>The floor of 1\<close>

lemma set_py_sort_reverse: "set (py_sort_reverse key xs) = set xs"
  by (simp add: py_sort_reverse_def)

lemma round_target_floor: "1 \<le> token_price_int (round_target a)"
  by (simp add: round_target_def Let_def)

lemma increase_floor: "1 \<le> token_price_int a \<Longrightarrow> 1 \<le> token_price_int (increase a)"
  by (simp add: increase_def Let_def)

lemma decrease_floor: "1 < token_price_int a \<Longrightarrow> 1 \<le> token_price_int (decrease a)"
  by (simp add: decrease_def Let_def)

lemma increase_loop_floor:
  "\<forall>a \<in> set xs. 1 \<le> token_price_int a \<Longrightarrow>
   \<forall>a \<in> set (fst (increase_loop d xs)). 1 \<le> token_price_int a"
  by (induction xs arbitrary: d) (simp_all add: Let_def increase_floor)

lemma decrease_loop_floor:
  "\<forall>a \<in> set xs. 1 \<le> token_price_int a \<Longrightarrow>
   \<forall>a \<in> set (fst (decrease_loop d xs)). 1 \<le> token_price_int a"
  by (induction xs arbitrary: d) (simp_all add: Let_def decrease_floor)

lemma fine_step_floor: "1 \<le> token_price_int a \<Longrightarrow> 1 \<le> token_price_int (fst (fine_step d a))"
  by (simp add: fine_step_def Let_def increase_floor decrease_floor)

lemma fine_loop_floor:
  "\<forall>a \<in> set xs. 1 \<le> token_price_int a \<Longrightarrow>
   \<forall>a \<in> set (fst (fine_loop d xs)). 1 \<le> token_price_int a"
  by (induction xs arbitrary: d) (simp_all add: Let_def fine_step_floor)

lemma coarse_pass_floor:
  assumes "\<forall>a \<in> set xs. 1 \<le> token_price_int a"
  shows "\<forall>a \<in> set (fst (coarse_pass d xs)). 1 \<le> token_price_int a"
proof -
  have s: "\<forall>a \<in> set (py_sort_reverse rounding_error xs). 1 \<le> token_price_int a"
    using assms by (simp add: set_py_sort_reverse)
  show ?thesis
  proof (cases "d > 0")
    case True
    then have "fst (coarse_pass d xs) = fst (increase_loop d (py_sort_reverse rounding_error xs))"
      by (simp add: coarse_pass_def Let_def)
    with increase_loop_floor [OF s, of d] show ?thesis by (simp only:)
  next
    case False
    then have "fst (coarse_pass d xs) = fst (decrease_loop d (py_sort_reverse rounding_error xs))"
      by (simp add: coarse_pass_def Let_def)
    with decrease_loop_floor [OF s, of d] show ?thesis by (simp only:)
  qed
qed

lemma fine_pass_floor:
  assumes "\<forall>a \<in> set xs. 1 \<le> token_price_int a"
  shows "\<forall>a \<in> set (fine_pass target xs). 1 \<le> token_price_int a"
proof (cases "\<bar>of_int target - weighted_sum xs\<bar> > 0")
  case True
  have s: "\<forall>a \<in> set (sort_key stock_initial xs). 1 \<le> token_price_int a"
    using assms by simp
  from True have "fine_pass target xs =
      fst (fine_loop (of_int target - weighted_sum xs) (sort_key stock_initial xs))"
    by (simp add: fine_pass_def Let_def)
  with fine_loop_floor [OF s, of "of_int target - weighted_sum xs"] show ?thesis
    by (simp only:)
next
  case False
  then have "fine_pass target xs = xs"
    by (simp add: fine_pass_def Let_def)
  with assms show ?thesis by (simp only:)
qed

lemma redistribute_floor:
  assumes "\<forall>a \<in> set xs. 1 \<le> token_price_int a"
  shows "\<forall>a \<in> set (redistribute target xs). 1 \<le> token_price_int a"
proof (cases "of_int target - weighted_sum xs = 0")
  case True
  then have "redistribute target xs = xs"
    by (simp add: redistribute_def Let_def)
  with assms show ?thesis by (simp only:)
next
  case False
  then have "redistribute target xs =
      fine_pass target (fst (coarse_pass (of_int target - weighted_sum xs) xs))"
    by (simp add: redistribute_def Let_def)
  with fine_pass_floor [OF coarse_pass_floor [OF assms]] show ?thesis by (simp only:)
qed

lemma initial_rounding_floor:
  assumes "initial_rounding target pcs vs = Inr rounded"
  shows "\<forall>a \<in> set rounded. 1 \<le> token_price_int a"
  using assms
  by (auto simp: initial_rounding_def Let_def round_target_floor split: sum.splits)

text \<open>
  C2. For the allocations built from the kept rows, the integer price of every entry is
  at least 1 after the initial rounding, after the coarse pass (whatever difference it is
  run with), after the fine pass, and so after the whole redistribution.
\<close>

theorem floor_invariant:
  assumes "initial_rounding target pcs vs = Inr rounded"
  shows "(\<forall>a \<in> set rounded. 1 \<le> token_price_int a) \<and>
    (\<forall>a \<in> set (fst (coarse_pass difference rounded)). 1 \<le> token_price_int a) \<and>
    (\<forall>a \<in> set (fine_pass target (fst (coarse_pass difference rounded))).
        1 \<le> token_price_int a) \<and>
    (\<forall>a \<in> set (redistribute target rounded). 1 \<le> token_price_int a)"
proof -
  note r = initial_rounding_floor [OF assms]
  note c = coarse_pass_floor [OF r, of difference]
  from r c fine_pass_floor [OF c] redistribute_floor [OF r] show ?thesis by blast
qed

subsection \<open>From the kept rows to the written rows\<close>

lemma check_record_reread:
  "check_record i pc = Inr (Some v) \<Longrightarrow> reread_pvp pc = Inr (v_pvp v)"
  by (auto simp: check_record_def reread_pvp_def split: sum.splits if_splits)

lemma valid_records_reread:
  assumes "valid_records pcs = Inr vs" and "v \<in> set vs"
  shows "reread_pvp (pcs ! v_record v) = Inr (v_pvp v)"
  using check_record_reread [OF valid_records_member(2) [OF assms]] .

lemma set_target_reread:
  "reread_pvp (pcs ! v_record v) = Inr (v_pvp v) \<Longrightarrow>
   set_target pcs tps target (first_allocation k v) = Inr (targeted tps target k v)"
  by (simp add: set_target_def targeted_def first_allocation_def Let_def)

lemma set_targets_reread:
  "\<forall>v \<in> set vs. reread_pvp (pcs ! v_record v) = Inr (v_pvp v) \<Longrightarrow>
   set_targets pcs tps target (map (first_allocation k) vs) = Inr (map (targeted tps target k) vs)"
  by (induction vs) (simp_all add: set_target_reread)

lemma initial_rounding_valid:
  assumes "valid_records pcs = Inr vs"
  shows "initial_rounding target pcs vs =
    Inr (map (\<lambda>v. round_target (targeted (total_pvp_stock vs) target
                 (of_int target / total_pvp_stock vs) v)) vs)"
proof -
  have "\<forall>v \<in> set vs. reread_pvp (pcs ! v_record v) = Inr (v_pvp v)"
    using valid_records_reread [OF assms] by blast
  from set_targets_reread [OF this] show ?thesis
    by (simp add: initial_rounding_def Let_def comp_def)
qed

lemma a_record_targeted: "a_record (round_target (targeted tps target k v)) = v_record v"
  by (simp add: round_target_def targeted_def first_allocation_def Let_def)

lemma stock_targeted: "stock_initial (round_target (targeted tps target k v)) = v_stock_initial v"
  by (simp add: round_target_def targeted_def first_allocation_def Let_def)

lemma a_record_increase: "a_record (increase a) = a_record a"
  by (simp add: increase_def Let_def)

lemma a_record_decrease: "a_record (decrease a) = a_record a"
  by (simp add: decrease_def Let_def)

lemma increase_loop_a_record: "map a_record (fst (increase_loop d xs)) = map a_record xs"
  by (induction xs arbitrary: d) (simp_all add: Let_def a_record_increase)

lemma decrease_loop_a_record: "map a_record (fst (decrease_loop d xs)) = map a_record xs"
  by (induction xs arbitrary: d) (simp_all add: Let_def a_record_decrease)

lemma a_record_fine_step: "a_record (fst (fine_step d a)) = a_record a"
  by (simp add: fine_step_def Let_def a_record_increase a_record_decrease)

lemma fine_loop_a_record: "map a_record (fst (fine_loop d xs)) = map a_record xs"
  by (induction xs arbitrary: d) (simp_all add: Let_def a_record_fine_step)

lemma mset_py_sort_reverse: "mset (py_sort_reverse key xs) = mset xs"
  by (simp add: py_sort_reverse_def)

lemma coarse_pass_a_record:
  "mset (map a_record (fst (coarse_pass d xs))) = mset (map a_record xs)"
proof -
  have "map a_record (fst (coarse_pass d xs)) = map a_record (py_sort_reverse rounding_error xs)"
    by (simp add: coarse_pass_def Let_def increase_loop_a_record decrease_loop_a_record)
  then have "mset (map a_record (fst (coarse_pass d xs))) =
      mset (map a_record (py_sort_reverse rounding_error xs))"
    by (simp only:)
  also have "\<dots> = mset (map a_record xs)"
    by (simp add: mset_py_sort_reverse)
  finally show ?thesis .
qed

lemma fine_pass_a_record:
  "mset (map a_record (fine_pass target xs)) = mset (map a_record xs)"
proof (cases "\<bar>of_int target - weighted_sum xs\<bar> > 0")
  case True
  then have "map a_record (fine_pass target xs) = map a_record (sort_key stock_initial xs)"
    by (simp add: fine_pass_def Let_def fine_loop_a_record)
  then have "mset (map a_record (fine_pass target xs)) =
      mset (map a_record (sort_key stock_initial xs))"
    by (simp only:)
  also have "\<dots> = mset (map a_record xs)"
    by simp
  finally show ?thesis .
next
  case False
  then show ?thesis by (simp add: fine_pass_def Let_def)
qed

lemma redistribute_a_record:
  "mset (map a_record (redistribute target xs)) = mset (map a_record xs)"
proof (cases "of_int target - weighted_sum xs = 0")
  case True
  then show ?thesis by (simp add: redistribute_def Let_def)
next
  case False
  then have "redistribute target xs =
      fine_pass target (fst (coarse_pass (of_int target - weighted_sum xs) xs))"
    by (simp add: redistribute_def Let_def)
  then show ?thesis
    using fine_pass_a_record coarse_pass_a_record by (simp only:)
qed

lemma valid_records_from_distinct:
  "valid_records_from i pcs = Inr vs \<Longrightarrow> distinct (map v_record vs)"
proof (induction pcs arbitrary: i vs)
  case Nil
  then show ?case by simp
next
  case (Cons pc pcs)
  show ?case
  proof (cases "check_record i pc")
    case (Inl e)
    with Cons.prems show ?thesis by simp
  next
    case (Inr r)
    show ?thesis
    proof (cases r)
      case None
      with Inr Cons.prems Cons.IH show ?thesis by simp
    next
      case (Some w)
      with Inr Cons.prems obtain ws where
        ws: "valid_records_from (Suc i) pcs = Inr ws" and vs: "vs = w # ws"
        by (auto split: sum.splits)
      from Inr Some have "check_record i pc = Inr (Some w)" by simp
      from check_record_Some [OF this] have w: "v_record w = i" by simp
      have "\<forall>v \<in> set ws. Suc i \<le> v_record v"
        using valid_records_from_member [OF ws] by blast
      with w have "v_record w \<notin> v_record ` set ws" by auto
      with Cons.IH [OF ws] vs show ?thesis by simp
    qed
  qed
qed

lemma valid_records_distinct: "valid_records pcs = Inr vs \<Longrightarrow> distinct (map v_record vs)"
  using valid_records_from_distinct [of 0 pcs vs] by (simp add: valid_records_def)

lemma allocate_a_record:
  assumes "valid_records pcs = Inr vs" and "allocate target pcs vs = Inr allocs"
  shows "mset (map a_record allocs) = mset (map v_record vs)"
proof -
  from assms(2) initial_rounding_valid [OF assms(1), of target]
  have "allocs = redistribute target (map (\<lambda>v. round_target (targeted (total_pvp_stock vs) target
                 (of_int target / total_pvp_stock vs) v)) vs)"
    by (simp add: allocate_def)
  then have "mset (map a_record allocs) =
      mset (map a_record (map (\<lambda>v. round_target (targeted (total_pvp_stock vs) target
                 (of_int target / total_pvp_stock vs) v)) vs))"
    using redistribute_a_record by (simp only:)
  also have "\<dots> = mset (map v_record vs)"
    by (simp add: comp_def a_record_targeted)
  finally show ?thesis .
qed

lemma write_record_id: "write_record tokens r (py ''_id'') = r (py ''_id'')"
  by (simp add: write_record_def)

lemma update_records_frame:
  "update_records as pcs = Inr pcs' \<Longrightarrow> distinct (map a_record as) \<Longrightarrow>
   \<forall>a \<in> set as. a_record a < length pcs \<Longrightarrow>
   length pcs' = length pcs \<and>
   (\<forall>a \<in> set as. pcs' ! a_record a = write_record (token_price_int a) (pcs ! a_record a)) \<and>
   (\<forall>i < length pcs. i \<notin> a_record ` set as \<longrightarrow> pcs' ! i = pcs ! i)"
proof (induction as arbitrary: pcs)
  case Nil
  then show ?case by simp
next
  case (Cons a as)
  let ?i = "a_record a"
  let ?r = "write_record (token_price_int a) (pcs ! ?i)"
  from Cons.prems(1) have run: "update_records as (pcs[?i := ?r]) = Inr pcs'"
    by (auto simp: Let_def split: option.splits cell.splits)
  from Cons.prems(2) have d: "distinct (map a_record as)" and ni: "?i \<notin> a_record ` set as"
    by simp_all
  from Cons.prems(3) have b: "\<forall>a \<in> set as. a_record a < length (pcs[?i := ?r])" and i: "?i < length pcs"
    by simp_all
  from Cons.IH [OF run d b] have
    len: "length pcs' = length pcs" and
    wr: "\<forall>b \<in> set as. pcs' ! a_record b = write_record (token_price_int b) (pcs[?i := ?r] ! a_record b)" and
    fr: "\<forall>j < length pcs. j \<notin> a_record ` set as \<longrightarrow> pcs' ! j = pcs[?i := ?r] ! j"
    by simp_all
  from fr i ni have hd: "pcs' ! ?i = ?r" by simp
  have tl: "\<forall>b \<in> set as. pcs' ! a_record b = write_record (token_price_int b) (pcs ! a_record b)"
  proof
    fix b assume b: "b \<in> set as"
    with ni have "a_record b \<noteq> ?i" by (metis imageI)
    with wr b show "pcs' ! a_record b = write_record (token_price_int b) (pcs ! a_record b)"
      by simp
  qed
  have rest: "\<forall>j < length pcs. j \<notin> a_record ` set (a # as) \<longrightarrow> pcs' ! j = pcs ! j"
    using fr by auto
  from len hd tl rest show ?case by simp
qed

lemma update_records_succeeds:
  "\<forall>a \<in> set as. a_record a < length pcs \<and> (\<exists>s. (pcs ! a_record a) (py ''_id'') = Some (Str s)) \<Longrightarrow>
   \<exists>pcs'. update_records as pcs = Inr pcs'"
proof (induction as arbitrary: pcs)
  case Nil
  then show ?case by simp
next
  case (Cons a as)
  let ?i = "a_record a"
  let ?r = "write_record (token_price_int a) (pcs ! ?i)"
  from Cons.prems obtain s where s: "(pcs ! ?i) (py ''_id'') = Some (Str s)" and i: "?i < length pcs"
    by auto
  have "\<forall>b \<in> set as. a_record b < length (pcs[?i := ?r]) \<and>
          (\<exists>s. (pcs[?i := ?r] ! a_record b) (py ''_id'') = Some (Str s))"
  proof
    fix b assume "b \<in> set as"
    with Cons.prems have b: "a_record b < length pcs" "\<exists>s. (pcs ! a_record b) (py ''_id'') = Some (Str s)"
      by simp_all
    show "a_record b < length (pcs[?i := ?r]) \<and>
          (\<exists>s. (pcs[?i := ?r] ! a_record b) (py ''_id'') = Some (Str s))"
      using b i s by (cases "a_record b = ?i") (simp_all add: write_record_id)
  qed
  from Cons.IH [OF this] obtain pcs' where "update_records as (pcs[?i := ?r]) = Inr pcs'" ..
  with s show ?case by (simp add: Let_def write_record_id)
qed

subsection \<open>Runs on concrete rows\<close>

lemma entry_sel:
  "a_record (entry i t v s) = i" "token_price_int (entry i t v s) = v"
  "stock_initial (entry i t v s) = s" "weighted_value (entry i t v s) = of_int v * s"
  "target_token_price (entry i t v s) = t"
  by (simp_all add: entry_def)

lemma increase_entry: "increase (entry i t v s) = entry i t (v + 1) s"
  by (simp add: increase_def entry_def Let_def)

lemma decrease_entry: "decrease (entry i t v s) = entry i t (v - 1) s"
  by (simp add: decrease_def entry_def Let_def)

lemma rounding_error_entry: "rounding_error (entry i t v s) = \<bar>t - of_int v\<bar>"
  by (simp add: rounding_error_def entry_def)

lemmas entry_simps = entry_sel increase_entry decrease_entry rounding_error_entry

lemma reread_row: "reread_pvp (row i (py ''1'') s) = Inr 1"
  by (simp add: reread_pvp_def filter_defs)

lemma write_record_row:
  "write_record 1 (row i p s) =
     (row i p s)((py ''token_price_number'') \<mapsto> Str (py ''1''),
                 (py ''price_currency_option_currency_type'') \<mapsto> Str (py ''token''))"
  "write_record 2 (row i p s) =
     (row i p s)((py ''token_price_number'') \<mapsto> Str (py ''2''),
                 (py ''price_currency_option_currency_type'') \<mapsto> Str (py ''token''))"
  by (simp_all add: write_record_def str_int_small)

lemma write_record_row_id: "write_record n (row i p s) (py ''_id'') = Some (Str i)"
  by (simp add: write_record_def row_def)

lemma scenario_b_valid:
  "valid_records [row i1 (py ''1'') (py ''1''), row i2 (py ''1'') (py ''1'')] =
     Inr [\<lparr>v_record = 0, v_pvp = 1, v_stock_initial = 1\<rparr>,
          \<lparr>v_record = Suc 0, v_pvp = 1, v_stock_initial = 1\<rparr>]"
  by (simp add: filter_defs)

lemma scenario_b_rounding:
  "initial_rounding 3 [row i1 (py ''1'') (py ''1''), row i2 (py ''1'') (py ''1'')]
     [\<lparr>v_record = 0, v_pvp = 1, v_stock_initial = 1\<rparr>,
      \<lparr>v_record = Suc 0, v_pvp = 1, v_stock_initial = 1\<rparr>] =
   Inr [entry 0 (3 / 2) 2 1, entry (Suc 0) (3 / 2) 2 1]"
  by (simp add: alloc_defs reread_row entry_def)

lemma scenario_b_coarse:
  "coarse_pass (- 1) [entry 0 (3 / 2) 2 1, entry (Suc 0) (3 / 2) 2 1] =
     ([entry 0 (3 / 2) 1 1, entry (Suc 0) (3 / 2) 2 1], 0)"
  by (simp add: coarse_pass_def py_sort_reverse_def entry_simps)

lemma scenario_b_redistribute:
  "redistribute 3 [entry 0 (3 / 2) 2 1, entry (Suc 0) (3 / 2) 2 1] =
     [entry 0 (3 / 2) 1 1, entry (Suc 0) (3 / 2) 2 1]"
  by (simp add: redistribute_def fine_pass_def weighted_sum_def scenario_b_coarse
      entry_simps)

lemma scenario_b_update:
  "update_records [entry 0 (3 / 2) 1 1, entry (Suc 0) (3 / 2) 2 1]
     [row i1 (py ''1'') (py ''1''), row i2 (py ''1'') (py ''1'')] =
   Inr [write_record 1 (row i1 (py ''1'') (py ''1'')), write_record 2 (row i2 (py ''1'') (py ''1''))]"
  by (simp add: entry_simps write_record_row_id)

text \<open>
  C6 (scenario B). Two rows of weight 1 and multiplicity 1 with the target 3, whatever
  their identifiers: both proportional prices are 3/2, both are rounded to 2 with the
  same rounding error 1/2, and the coarse pass lowers the row that comes first in the
  input. The first row is written 1, the second 2, and the final weighted sum is 3, with
  no mismatch reported.
\<close>

theorem scenario_b:
  "calculate_token_prices_with 3 [row i1 (py ''1'') (py ''1''), row i2 (py ''1'') (py ''1'')] =
     Inr \<lparr>returned = True,
          records =
            [(row i1 (py ''1'') (py ''1''))((py ''token_price_number'') \<mapsto> Str (py ''1''),
                (py ''price_currency_option_currency_type'') \<mapsto> Str (py ''token'')),
             (row i2 (py ''1'') (py ''1''))((py ''token_price_number'') \<mapsto> Str (py ''2''),
                (py ''price_currency_option_currency_type'') \<mapsto> Str (py ''token''))],
          printed_final_sum = Some 3, printed_mismatch = None\<rparr>
   \<and> initial_rounding 3 [row i1 (py ''1'') (py ''1''), row i2 (py ''1'') (py ''1'')]
       [\<lparr>v_record = 0, v_pvp = 1, v_stock_initial = 1\<rparr>,
        \<lparr>v_record = 1, v_pvp = 1, v_stock_initial = 1\<rparr>] =
      Inr [entry 0 (3 / 2) 2 1, entry 1 (3 / 2) 2 1]
   \<and> rounding_error (entry 0 (3 / 2) 2 1) = rounding_error (entry 1 (3 / 2) 2 1)"
proof -
  have "allocate 3 [row i1 (py ''1'') (py ''1''), row i2 (py ''1'') (py ''1'')]
       [\<lparr>v_record = 0, v_pvp = 1, v_stock_initial = 1\<rparr>,
        \<lparr>v_record = Suc 0, v_pvp = 1, v_stock_initial = 1\<rparr>] =
      Inr [entry 0 (3 / 2) 1 1, entry (Suc 0) (3 / 2) 2 1]"
    by (simp only: allocate_def scenario_b_rounding scenario_b_redistribute sum.case)
  then have "calculate_token_prices_with 3 [row i1 (py ''1'') (py ''1''), row i2 (py ''1'') (py ''1'')] =
     Inr \<lparr>returned = True,
          records = [write_record 1 (row i1 (py ''1'') (py ''1'')), write_record 2 (row i2 (py ''1'') (py ''1''))],
          printed_final_sum = Some 3, printed_mismatch = None\<rparr>"
    by (simp add: calculate_token_prices_with_def scenario_b_valid total_pvp_stock_def
        scenario_b_update weighted_sum_def entry_simps del: update_records.simps)
  with scenario_b_rounding [of i1 i2] show ?thesis
    by (simp add: write_record_row rounding_error_entry)
qed

theorem scenario_b_witness:
  "calculate_token_prices_with 3 [row (py ''b'') (py ''1'') (py ''1''), row (py ''a'') (py ''1'') (py ''1'')] =
     Inr \<lparr>returned = True,
          records =
            [(row (py ''b'') (py ''1'') (py ''1''))((py ''token_price_number'') \<mapsto> Str (py ''1''),
                (py ''price_currency_option_currency_type'') \<mapsto> Str (py ''token'')),
             (row (py ''a'') (py ''1'') (py ''1''))((py ''token_price_number'') \<mapsto> Str (py ''2''),
                (py ''price_currency_option_currency_type'') \<mapsto> Str (py ''token''))],
          printed_final_sum = Some 3, printed_mismatch = None\<rparr>"
  using scenario_b [of "(py ''b'')" "(py ''a'')"] by (simp only:)

theorem floor_invariant_witness:
  "initial_rounding 3 [row (py ''a'') (py ''1'') (py ''1''), row (py ''b'') (py ''1'') (py ''1'')]
     [\<lparr>v_record = 0, v_pvp = 1, v_stock_initial = 1\<rparr>,
      \<lparr>v_record = 1, v_pvp = 1, v_stock_initial = 1\<rparr>] =
     Inr [entry 0 (3 / 2) 2 1, entry 1 (3 / 2) 2 1]
   \<and> list_all (\<lambda>a. 1 \<le> token_price_int a) [entry 0 (3 / 2) 2 1, entry 1 (3 / 2) 2 1]
   \<and> list_all (\<lambda>a. 1 \<le> token_price_int a)
        (fine_pass 3 (fst (coarse_pass (- 1) [entry 0 (3 / 2) 2 1, entry 1 (3 / 2) 2 1])))
   \<and> list_all (\<lambda>a. 1 \<le> token_price_int a)
        (redistribute 3 [entry 0 (3 / 2) 2 1, entry 1 (3 / 2) 2 1])"
  using floor_invariant [OF scenario_b_rounding [of "(py ''a'')" "(py ''b'')"], of "- 1"]
    scenario_b_rounding [of "(py ''a'')" "(py ''b'')"]
  by (simp add: list_all_iff)

subsection \<open>The result of a call\<close>

lemma calculate_Inr_cases:
  assumes "calculate_token_prices_with target pcs = Inr out"
  obtains (empty) "valid_records pcs = Inr []" "out = failure pcs"
  | (run) vs allocs pcs' where "valid_records pcs = Inr vs" "vs \<noteq> []"
      "allocate target pcs vs = Inr allocs" "update_records allocs pcs = Inr pcs'"
      "out = \<lparr>returned = True, records = pcs',
              printed_final_sum = Some (weighted_sum allocs),
              printed_mismatch =
                (if weighted_sum allocs \<noteq> of_int target
                 then Some (weighted_sum allocs - of_int target) else None)\<rparr>"
proof -
  from assms obtain vs where vs: "valid_records pcs = Inr vs"
    by (cases "valid_records pcs") (simp_all add: calculate_token_prices_with_def)
  show thesis
  proof (cases "vs = []")
    case True
    with assms vs have "out = failure pcs"
      by (simp add: calculate_token_prices_with_def)
    with vs True empty show thesis by simp
  next
    case False
    have pos: "\<And>v. v \<in> set vs \<Longrightarrow> 0 < v_pvp v \<and> 0 < v_stock_initial v"
      using valid_records_positive [OF vs] .
    from total_pvp_stock_positive [OF pos False] have t: "total_pvp_stock vs \<noteq> 0" by simp
    from assms vs False t obtain allocs where al: "allocate target pcs vs = Inr allocs"
      by (cases "allocate target pcs vs") (simp_all add: calculate_token_prices_with_def)
    from assms vs False t al obtain pcs' where up: "update_records allocs pcs = Inr pcs'"
      by (cases "update_records allocs pcs")
        (simp_all add: calculate_token_prices_with_def Let_def)
    from assms vs False t al up have
      "out = \<lparr>returned = True, records = pcs',
              printed_final_sum = Some (weighted_sum allocs),
              printed_mismatch =
                (if weighted_sum allocs \<noteq> of_int target
                 then Some (weighted_sum allocs - of_int target) else None)\<rparr>"
      by (simp add: calculate_token_prices_with_def Let_def)
    with vs False al up run show thesis by blast
  qed
qed

text \<open>
  C3, amended. The call returns one boolean, and it tells only whether an allocation was
  carried out: it is True exactly when at least one row passed the filter, whether the
  final weighted sum equals \<^verbatim>\<open>TARGET_SUM\<close> or not. The achieved weighted sum is not part
  of the return value; it is printed, and the warning with the signed difference
  \<^verbatim>\<open>final_sum - TARGET_SUM\<close> is printed exactly when the two differ.
\<close>

theorem returned_flag_means_processed:
  assumes "calculate_token_prices product_challenges = Inr out"
  shows "\<exists>vs. valid_records product_challenges = Inr vs \<and> returned out = (vs \<noteq> []) \<and>
    (vs \<noteq> [] \<longrightarrow>
      (\<exists>allocs. allocate TARGET_SUM product_challenges vs = Inr allocs \<and>
         printed_final_sum out = Some (weighted_sum allocs) \<and>
         printed_mismatch out =
           (if weighted_sum allocs \<noteq> of_int TARGET_SUM
            then Some (weighted_sum allocs - of_int TARGET_SUM) else None)))"
proof -
  from assms have "calculate_token_prices_with TARGET_SUM product_challenges = Inr out"
    by (simp add: calculate_token_prices_def)
  then show ?thesis
  proof (cases rule: calculate_Inr_cases)
    case empty
    then show ?thesis by (simp add: failure_def)
  next
    case (run vs allocs pcs')
    then show ?thesis by simp
  qed
qed

text \<open>
  C9. After a call that returns, the list has its length, every field other than
  \<^verbatim>\<open>token_price_number\<close> and \<^verbatim>\<open>price_currency_option_currency_type\<close> has in every row the
  value it had, a row kept by the filter has the currency field \<^verbatim>\<open>token\<close> and an integer
  price of at least 1 as its token price, and a row the filter left out is unchanged
  altogether.
\<close>

theorem frame_property:
  assumes "calculate_token_prices product_challenges = Inr out"
    and "valid_records product_challenges = Inr vs"
  shows "length (records out) = length product_challenges \<and>
    (\<forall>i < length product_challenges.
       (\<forall>key. key \<noteq> (py ''token_price_number'') \<longrightarrow>
              key \<noteq> (py ''price_currency_option_currency_type'') \<longrightarrow>
              (records out ! i) key = (product_challenges ! i) key) \<and>
       (i \<in> v_record ` set vs \<longrightarrow>
          (records out ! i) (py ''price_currency_option_currency_type'') = Some (Str (py ''token'')) \<and>
          (\<exists>tokens. 1 \<le> tokens \<and>
             (records out ! i) (py ''token_price_number'') = Some (Str (str_int tokens)))) \<and>
       (i \<notin> v_record ` set vs \<longrightarrow> records out ! i = product_challenges ! i))"
proof -
  let ?pcs = product_challenges
  from assms(1) have "calculate_token_prices_with TARGET_SUM ?pcs = Inr out"
    by (simp add: calculate_token_prices_def)
  then show ?thesis
  proof (cases rule: calculate_Inr_cases)
    case empty
    with assms(2) show ?thesis by (simp add: failure_def)
  next
    case (run ws allocs pcs')
    with assms(2) have ws: "ws = vs" by simp
    note al = run(3) [unfolded ws] and up = run(4)
    have ms: "mset (map a_record allocs) = mset (map v_record vs)"
      using allocate_a_record [OF assms(2) al] .
    have dist: "distinct (map a_record allocs)"
      using valid_records_distinct [OF assms(2)] mset_eq_imp_distinct_iff [OF ms] by blast
    have sets: "a_record ` set allocs = v_record ` set vs"
      using mset_eq_setD [OF ms] by simp
    have bound: "\<forall>a \<in> set allocs. a_record a < length ?pcs"
    proof
      fix a assume "a \<in> set allocs"
      then have "a_record a \<in> v_record ` set vs" using sets by blast
      then obtain v where "v \<in> set vs" "a_record a = v_record v" by blast
      then show "a_record a < length ?pcs"
        using valid_records_member(1) [OF assms(2), of v] by simp
    qed
    from al obtain rounded where
      r: "initial_rounding TARGET_SUM ?pcs vs = Inr rounded" and
      a: "allocs = redistribute TARGET_SUM rounded"
      by (cases "initial_rounding TARGET_SUM ?pcs vs") (auto simp: allocate_def)
    have floor: "\<forall>a \<in> set allocs. 1 \<le> token_price_int a"
      unfolding a using redistribute_floor [OF initial_rounding_floor [OF r]] .
    from update_records_frame [OF up dist bound] have
      len: "length pcs' = length ?pcs" and
      wr: "\<forall>a \<in> set allocs. pcs' ! a_record a =
             write_record (token_price_int a) (?pcs ! a_record a)" and
      fr: "\<forall>i < length ?pcs. i \<notin> a_record ` set allocs \<longrightarrow> pcs' ! i = ?pcs ! i"
      by simp_all
    have out: "records out = pcs'" using run(5) by simp
    have "\<forall>i < length ?pcs.
       (\<forall>key. key \<noteq> (py ''token_price_number'') \<longrightarrow>
              key \<noteq> (py ''price_currency_option_currency_type'') \<longrightarrow>
              (pcs' ! i) key = (?pcs ! i) key) \<and>
       (i \<in> v_record ` set vs \<longrightarrow>
          (pcs' ! i) (py ''price_currency_option_currency_type'') = Some (Str (py ''token'')) \<and>
          (\<exists>tokens. 1 \<le> tokens \<and>
             (pcs' ! i) (py ''token_price_number'') = Some (Str (str_int tokens)))) \<and>
       (i \<notin> v_record ` set vs \<longrightarrow> pcs' ! i = ?pcs ! i)"
    proof (intro allI impI)
      fix i assume i: "i < length ?pcs"
      show "(\<forall>key. key \<noteq> (py ''token_price_number'') \<longrightarrow>
              key \<noteq> (py ''price_currency_option_currency_type'') \<longrightarrow>
              (pcs' ! i) key = (?pcs ! i) key) \<and>
       (i \<in> v_record ` set vs \<longrightarrow>
          (pcs' ! i) (py ''price_currency_option_currency_type'') = Some (Str (py ''token'')) \<and>
          (\<exists>tokens. 1 \<le> tokens \<and>
             (pcs' ! i) (py ''token_price_number'') = Some (Str (str_int tokens)))) \<and>
       (i \<notin> v_record ` set vs \<longrightarrow> pcs' ! i = ?pcs ! i)"
      proof (cases "i \<in> a_record ` set allocs")
        case True
        then obtain a where a: "a \<in> set allocs" "a_record a = i" by blast
        with wr have w: "pcs' ! i = write_record (token_price_int a) (?pcs ! i)" by blast
        from a floor have "1 \<le> token_price_int a" by blast
        with w True sets show ?thesis
          by (auto simp: write_record_def)
      next
        case False
        with fr i have "pcs' ! i = ?pcs ! i" by blast
        with False sets show ?thesis by simp
      qed
    qed
    with len out show ?thesis by simp
  qed
qed

subsection \<open>A run that misses the target\<close>

lemma mismatch_coarse:
  "coarse_pass 3000 [entry 0 (11 / 8) 1 5000, entry j (11 / 8) 1 3000] =
     ([entry 0 (11 / 8) 2 5000, entry j (11 / 8) 1 3000], - 2000)"
  by (simp add: coarse_pass_def py_sort_reverse_def entry_simps)

lemma mismatch_fine:
  "fine_pass 11000 [entry 0 (11 / 8) 2 5000, entry j (11 / 8) 1 3000] =
     [entry j (11 / 8) 1 3000, entry 0 (11 / 8) 1 5000]"
  by (simp add: fine_pass_def fine_step_def weighted_sum_def entry_simps)

lemma mismatch_redistribute:
  "redistribute 11000 [entry 0 (11 / 8) 1 5000, entry j (11 / 8) 1 3000] =
     [entry j (11 / 8) 1 3000, entry 0 (11 / 8) 1 5000]"
  by (simp add: redistribute_def weighted_sum_def mismatch_coarse mismatch_fine entry_simps)

lemma mismatch_rounding:
  "initial_rounding 11000 [row (py ''a'') (py ''1'') (py ''5000''), row (py ''b'') (py ''1'') (py ''3000'')]
     [\<lparr>v_record = 0, v_pvp = 1, v_stock_initial = 5000\<rparr>,
      \<lparr>v_record = 1, v_pvp = 1, v_stock_initial = 3000\<rparr>] =
   Inr [entry 0 (11 / 8) 1 5000, entry 1 (11 / 8) 1 3000]"
  by (simp add: alloc_defs reread_row entry_def)

lemma mismatch_allocate:
  "allocate 11000 [row (py ''a'') (py ''1'') (py ''5000''), row (py ''b'') (py ''1'') (py ''3000'')]
     [\<lparr>v_record = 0, v_pvp = 1, v_stock_initial = 5000\<rparr>,
      \<lparr>v_record = 1, v_pvp = 1, v_stock_initial = 3000\<rparr>] =
   Inr [entry 1 (11 / 8) 1 3000, entry 0 (11 / 8) 1 5000]"
  by (simp only: allocate_def mismatch_rounding mismatch_redistribute sum.case)

lemma mismatch_update:
  "update_records [entry (Suc 0) (11 / 8) 1 3000, entry 0 (11 / 8) 1 5000]
     [row (py ''a'') (py ''1'') (py ''5000''), row (py ''b'') (py ''1'') (py ''3000'')] =
   Inr [write_record 1 (row (py ''a'') (py ''1'') (py ''5000'')), write_record 1 (row (py ''b'') (py ''1'') (py ''3000''))]"
  by (simp add: entry_simps write_record_row_id)

lemma mismatch_run:
  "calculate_token_prices [row (py ''a'') (py ''1'') (py ''5000''), row (py ''b'') (py ''1'') (py ''3000'')] =
     Inr \<lparr>returned = True,
          records =
            [(row (py ''a'') (py ''1'') (py ''5000''))((py ''token_price_number'') \<mapsto> Str (py ''1''),
                (py ''price_currency_option_currency_type'') \<mapsto> Str (py ''token'')),
             (row (py ''b'') (py ''1'') (py ''3000''))((py ''token_price_number'') \<mapsto> Str (py ''1''),
                (py ''price_currency_option_currency_type'') \<mapsto> Str (py ''token''))],
          printed_final_sum = Some 8000, printed_mismatch = Some (- 3000)\<rparr>"
  by (simp add: out_defs two_rows_valid total_pvp_stock_def mismatch_allocate [simplified]
      mismatch_update weighted_sum_def entry_simps write_record_row
      del: update_records.simps)

text \<open>
  C3, as stated, fails on two rows of price 1 with stocks 5000 and 3000: the call returns
  True although the final weighted sum is 8000 and the target is 11000.
\<close>

theorem flag_true_on_mismatch_counterexample:
  "calculate_token_prices [row (py ''a'') (py ''1'') (py ''5000''), row (py ''b'') (py ''1'') (py ''3000'')] =
     Inr \<lparr>returned = True,
          records =
            [(row (py ''a'') (py ''1'') (py ''5000''))((py ''token_price_number'') \<mapsto> Str (py ''1''),
                (py ''price_currency_option_currency_type'') \<mapsto> Str (py ''token'')),
             (row (py ''b'') (py ''1'') (py ''3000''))((py ''token_price_number'') \<mapsto> Str (py ''1''),
                (py ''price_currency_option_currency_type'') \<mapsto> Str (py ''token''))],
          printed_final_sum = Some 8000, printed_mismatch = Some (- 3000)\<rparr>
   \<and> (8000 :: real) \<noteq> of_int TARGET_SUM"
  using mismatch_run by (simp add: TARGET_SUM_def)


lemma three_rows_valid:
  "valid_records [row (py ''a'') (py ''1'') (py ''5000''), row (py ''b'') (py ''1.5'') (py ''7''), row (py ''c'') (py ''1'') (py ''3000'')] =
     Inr [\<lparr>v_record = 0, v_pvp = 1, v_stock_initial = 5000\<rparr>,
          \<lparr>v_record = 2, v_pvp = 1, v_stock_initial = 3000\<rparr>]"
  by (simp add: filter_defs)

lemma three_rows_rounding:
  "initial_rounding 11000 [row (py ''a'') (py ''1'') (py ''5000''), row (py ''b'') (py ''1.5'') (py ''7''), row (py ''c'') (py ''1'') (py ''3000'')]
     [\<lparr>v_record = 0, v_pvp = 1, v_stock_initial = 5000\<rparr>,
      \<lparr>v_record = 2, v_pvp = 1, v_stock_initial = 3000\<rparr>] =
   Inr [entry 0 (11 / 8) 1 5000, entry 2 (11 / 8) 1 3000]"
  by (simp add: alloc_defs reread_row entry_def)

lemma three_rows_allocate:
  "allocate 11000 [row (py ''a'') (py ''1'') (py ''5000''), row (py ''b'') (py ''1.5'') (py ''7''), row (py ''c'') (py ''1'') (py ''3000'')]
     [\<lparr>v_record = 0, v_pvp = 1, v_stock_initial = 5000\<rparr>,
      \<lparr>v_record = 2, v_pvp = 1, v_stock_initial = 3000\<rparr>] =
   Inr [entry 2 (11 / 8) 1 3000, entry 0 (11 / 8) 1 5000]"
  by (simp only: allocate_def three_rows_rounding mismatch_redistribute sum.case)

lemma three_rows_update:
  "update_records [entry 2 (11 / 8) 1 3000, entry 0 (11 / 8) 1 5000]
     [row (py ''a'') (py ''1'') (py ''5000''), row (py ''b'') (py ''1.5'') (py ''7''), row (py ''c'') (py ''1'') (py ''3000'')] =
   Inr [write_record 1 (row (py ''a'') (py ''1'') (py ''5000'')), row (py ''b'') (py ''1.5'') (py ''7''),
        write_record 1 (row (py ''c'') (py ''1'') (py ''3000''))]"
  by (simp add: entry_simps write_record_row_id)

lemma three_rows_run:
  "calculate_token_prices
     [row (py ''a'') (py ''1'') (py ''5000''), row (py ''b'') (py ''1.5'') (py ''7''), row (py ''c'') (py ''1'') (py ''3000'')] =
     Inr \<lparr>returned = True,
          records =
            [write_record 1 (row (py ''a'') (py ''1'') (py ''5000'')), row (py ''b'') (py ''1.5'') (py ''7''),
             write_record 1 (row (py ''c'') (py ''1'') (py ''3000''))],
          printed_final_sum = Some 8000, printed_mismatch = Some (- 3000)\<rparr>"
  by (simp add: out_defs three_rows_valid total_pvp_stock_def three_rows_allocate
      three_rows_update weighted_sum_def entry_simps
      del: update_records.simps)

theorem returned_flag_means_processed_witness:
  "calculate_token_prices
     [row (py ''a'') (py ''1'') (py ''5000''), row (py ''b'') (py ''1.5'') (py ''7''), row (py ''c'') (py ''1'') (py ''3000'')] =
     Inr \<lparr>returned = True,
          records =
            [write_record 1 (row (py ''a'') (py ''1'') (py ''5000'')), row (py ''b'') (py ''1.5'') (py ''7''),
             write_record 1 (row (py ''c'') (py ''1'') (py ''3000''))],
          printed_final_sum = Some 8000, printed_mismatch = Some (- 3000)\<rparr>
   \<and> (\<exists>vs. valid_records
          [row (py ''a'') (py ''1'') (py ''5000''), row (py ''b'') (py ''1.5'') (py ''7''), row (py ''c'') (py ''1'') (py ''3000'')] = Inr vs
        \<and> vs \<noteq> [])"
  using returned_flag_means_processed [OF three_rows_run] three_rows_run
  by auto

theorem frame_property_witness:
  "calculate_token_prices
     [row (py ''a'') (py ''1'') (py ''5000''), row (py ''b'') (py ''1.5'') (py ''7''), row (py ''c'') (py ''1'') (py ''3000'')] =
     Inr \<lparr>returned = True,
          records =
            [write_record 1 (row (py ''a'') (py ''1'') (py ''5000'')), row (py ''b'') (py ''1.5'') (py ''7''),
             write_record 1 (row (py ''c'') (py ''1'') (py ''3000''))],
          printed_final_sum = Some 8000, printed_mismatch = Some (- 3000)\<rparr>
   \<and> valid_records [row (py ''a'') (py ''1'') (py ''5000''), row (py ''b'') (py ''1.5'') (py ''7''), row (py ''c'') (py ''1'') (py ''3000'')] =
     Inr [\<lparr>v_record = 0, v_pvp = 1, v_stock_initial = 5000\<rparr>,
          \<lparr>v_record = 2, v_pvp = 1, v_stock_initial = 3000\<rparr>]
   \<and> write_record 1 (row (py ''a'') (py ''1'') (py ''5000'')) (py ''pvp_number'') = Some (Str (py ''1''))
   \<and> write_record 1 (row (py ''c'') (py ''1'') (py ''3000'')) (py ''price_currency_option_currency_type'') =
       Some (Str (py ''token''))
   \<and> [write_record 1 (row (py ''a'') (py ''1'') (py ''5000'')), row (py ''b'') (py ''1.5'') (py ''7''),
        write_record 1 (row (py ''c'') (py ''1'') (py ''3000''))] ! 1 = row (py ''b'') (py ''1.5'') (py ''7'')"
  using frame_property [OF three_rows_run three_rows_valid] three_rows_run three_rows_valid
  by (simp add: write_record_def row_def)

lemma py_round_small:
  assumes "0 \<le> x" and "x < 3 / 2"
  shows "max 1 (py_round x) = 1"
proof -
  have f: "\<lfloor>x\<rfloor> = 0 \<or> \<lfloor>x\<rfloor> = 1"
  proof -
    have "0 \<le> \<lfloor>x\<rfloor>" using assms(1) by simp
    moreover have "\<lfloor>x\<rfloor> < 2" using assms(2) by (simp add: floor_less_iff)
    ultimately show ?thesis by linarith
  qed
  then show ?thesis
  proof
    assume "\<lfloor>x\<rfloor> = 0"
    then show ?thesis by (simp add: py_round_def Let_def)
  next
    assume one: "\<lfloor>x\<rfloor> = 1"
    with assms(2) have "x - of_int \<lfloor>x\<rfloor> < 1 / 2" by simp
    with one show ?thesis by (simp add: py_round_def Let_def)
  qed
qed

lemma decrease_loop_pinned:
  "\<forall>a \<in> set xs. token_price_int a = 1 \<Longrightarrow> decrease_loop d xs = (xs, d)"
  by (induction xs arbitrary: d) (simp_all add: Let_def)

lemma fine_loop_pinned:
  "\<forall>a \<in> set xs. token_price_int a = 1 \<Longrightarrow> d < 0 \<Longrightarrow> fine_loop d xs = (xs, d)"
  by (induction xs arbitrary: d) (simp_all add: Let_def fine_step_def)

lemma weighted_sum_mset: "mset xs = mset ys \<Longrightarrow> weighted_sum xs = weighted_sum ys"
proof -
  assume "mset xs = mset ys"
  then have "mset (map weighted_value xs) = mset (map weighted_value ys)" by simp
  then have "sum_mset (mset (map weighted_value xs)) = sum_mset (mset (map weighted_value ys))"
    by (simp only:)
  then show ?thesis by (simp only: sum_mset_sum_list weighted_sum_def)
qed

lemma redistribute_pinned:
  assumes pin: "\<forall>a \<in> set xs. token_price_int a = 1"
    and neg: "of_int target < weighted_sum xs"
  shows "redistribute target xs = sort_key stock_initial (py_sort_reverse rounding_error xs)"
proof -
  let ?d = "of_int target - weighted_sum xs"
  let ?s = "py_sort_reverse rounding_error xs"
  from neg have d: "?d < 0" by simp
  have "\<forall>a \<in> set ?s. token_price_int a = 1"
    using pin by (simp add: set_py_sort_reverse)
  from decrease_loop_pinned [OF this, of ?d] d have c: "coarse_pass ?d xs = (?s, ?d)"
    by (simp add: coarse_pass_def Let_def)
  have ws: "weighted_sum ?s = weighted_sum xs"
    by (rule weighted_sum_mset) (simp add: mset_py_sort_reverse)
  have "\<forall>a \<in> set (sort_key stock_initial ?s). token_price_int a = 1"
    using pin by (simp add: set_py_sort_reverse)
  from fine_loop_pinned [OF this d] have
    "fine_loop ?d (sort_key stock_initial ?s) = (sort_key stock_initial ?s, ?d)" .
  with d ws have "fine_pass target ?s = sort_key stock_initial ?s"
    by (simp add: fine_pass_def Let_def)
  with c d show ?thesis
    by (simp add: redistribute_def Let_def)
qed

lemma redistribute_pinned_mset:
  assumes "\<forall>a \<in> set xs. token_price_int a = 1" and "of_int target < weighted_sum xs"
  shows "mset (redistribute target xs) = mset xs"
  by (simp add: redistribute_pinned [OF assms] mset_py_sort_reverse)

subsection \<open>All prices at the floor\<close>

lemma calculate_run:
  assumes "valid_records pcs = Inr vs" and "vs \<noteq> []"
    and "allocate target pcs vs = Inr allocs" and "update_records allocs pcs = Inr pcs'"
  shows "calculate_token_prices_with target pcs =
    Inr \<lparr>returned = True, records = pcs',
         printed_final_sum = Some (weighted_sum allocs),
         printed_mismatch =
           (if weighted_sum allocs \<noteq> of_int target
            then Some (weighted_sum allocs - of_int target) else None)\<rparr>"
proof -
  have pos: "\<And>v. v \<in> set vs \<Longrightarrow> 0 < v_pvp v \<and> 0 < v_stock_initial v"
    using valid_records_positive [OF assms(1)] .
  from total_pvp_stock_positive [OF pos assms(2)] have "total_pvp_stock vs \<noteq> 0" by simp
  with assms show ?thesis
    by (simp add: calculate_token_prices_with_def Let_def)
qed

lemma scenario_d_entry:
  assumes p: "0 < v_pvp v" and q: "0 < other" and s: "v_stock_initial v = 5"
    and tps: "tps = v_pvp v * 5 + other * 5"
  shows "round_target (targeted tps 3 (of_int 3 / tps) v) =
    entry (v_record v) (3 * v_pvp v / tps) 1 5"
proof -
  have tpos: "0 < tps" using p q tps by simp
  have lt: "3 * v_pvp v / tps < 3 / 2"
    using p q tpos by (simp add: tps divide_less_eq)
  have ge: "0 \<le> 3 * v_pvp v / tps"
    using p tpos by simp
  have ideal: "v_pvp v * 5 / tps * 3 / 5 = 3 * v_pvp v / tps"
    by simp
  from py_round_small [OF ge lt] have r: "max 1 (py_round (3 * v_pvp v / tps)) = 1" .
  show ?thesis
    using r tpos
    by (simp add: round_target_def targeted_def first_allocation_def entry_def Let_def s ideal)
qed

text \<open>
  C7 (scenario D). A batch in which exactly two rows pass the filter, both with
  multiplicity 5, run with the target 3, whatever the two weights: the initial rounding
  puts both prices at 1, the call returns without raising (each kept row has its
  \<^verbatim>\<open>_id\<close>), both passes leave the two entries as they are (up to their order in the
  list), both rows are written the price 1, the final weighted sum is 10, and the
  mismatch is reported with the positive difference \<^verbatim>\<open>final_sum - target = 7\<close>.
\<close>

theorem scenario_d:
  assumes valid: "valid_records product_challenges = Inr [v1, v2]"
    and s1: "v_stock_initial v1 = 5" and s2: "v_stock_initial v2 = 5"
    and id1: "(product_challenges ! v_record v1) (py ''_id'') = Some (Str n1)"
    and id2: "(product_challenges ! v_record v2) (py ''_id'') = Some (Str n2)"
  shows "\<exists>t1 t2 allocs out.
    initial_rounding 3 product_challenges [v1, v2] =
      Inr [entry (v_record v1) t1 1 5, entry (v_record v2) t2 1 5] \<and>
    allocate 3 product_challenges [v1, v2] = Inr allocs \<and>
    mset allocs = mset [entry (v_record v1) t1 1 5, entry (v_record v2) t2 1 5] \<and>
    calculate_token_prices_with 3 product_challenges = Inr out \<and>
    returned out \<and> printed_final_sum out = Some 10 \<and> printed_mismatch out = Some 7 \<and>
    records out ! v_record v1 = write_record 1 (product_challenges ! v_record v1) \<and>
    records out ! v_record v2 = write_record 1 (product_challenges ! v_record v2)"
proof -
  let ?pcs = product_challenges
  let ?tps = "total_pvp_stock [v1, v2]"
  let ?t1 = "3 * v_pvp v1 / ?tps" and ?t2 = "3 * v_pvp v2 / ?tps"
  let ?e1 = "entry (v_record v1) ?t1 1 5" and ?e2 = "entry (v_record v2) ?t2 1 5"
  have p1: "0 < v_pvp v1" and p2: "0 < v_pvp v2"
    using valid_records_positive [OF valid, of v1] valid_records_positive [OF valid, of v2]
    by simp_all
  have tps1: "?tps = v_pvp v1 * 5 + v_pvp v2 * 5" and tps2: "?tps = v_pvp v2 * 5 + v_pvp v1 * 5"
    by (simp_all add: total_pvp_stock_def s1 s2)
  have rounded: "initial_rounding 3 ?pcs [v1, v2] = Inr [?e1, ?e2]"
    using initial_rounding_valid [OF valid, of 3]
      scenario_d_entry [OF p1 p2 s1 tps1] scenario_d_entry [OF p2 p1 s2 tps2]
    by simp
  have pin: "\<forall>a \<in> set [?e1, ?e2]. token_price_int a = 1"
    by (simp add: entry_sel)
  have ws: "weighted_sum [?e1, ?e2] = 10"
    by (simp add: weighted_sum_def entry_sel)
  then have neg: "of_int 3 < weighted_sum [?e1, ?e2]" by simp
  let ?allocs = "redistribute 3 [?e1, ?e2]"
  have al: "allocate 3 ?pcs [v1, v2] = Inr ?allocs"
    by (simp only: allocate_def rounded sum.case)
  have ms: "mset ?allocs = mset [?e1, ?e2]"
    using redistribute_pinned_mset [OF pin neg] .
  have ws': "weighted_sum ?allocs = 10"
    using weighted_sum_mset [OF ms] ws by simp
  have sets: "set ?allocs = {?e1, ?e2}"
    using mset_eq_setD [OF ms] by simp
  have b1: "v_record v1 < length ?pcs" and b2: "v_record v2 < length ?pcs"
    using valid_records_member(1) [OF valid, of v1] valid_records_member(1) [OF valid, of v2]
    by simp_all
  have "\<forall>a \<in> set ?allocs. a_record a < length ?pcs \<and>
          (\<exists>s. (?pcs ! a_record a) (py ''_id'') = Some (Str s))"
    unfolding sets using b1 b2 id1 id2 by (simp add: entry_sel)
  from update_records_succeeds [OF this] obtain pcs' where
    up: "update_records ?allocs ?pcs = Inr pcs'" ..
  have dist: "distinct (map a_record ?allocs)"
    using valid_records_distinct [OF valid]
      mset_eq_imp_distinct_iff [OF allocate_a_record [OF valid al]] by blast
  have bound: "\<forall>a \<in> set ?allocs. a_record a < length ?pcs"
    unfolding sets using b1 b2 by (simp add: entry_sel)
  from update_records_frame [OF up dist bound] have
    wr: "\<forall>a \<in> set ?allocs. pcs' ! a_record a =
           write_record (token_price_int a) (?pcs ! a_record a)"
    by simp
  have w1: "pcs' ! v_record v1 = write_record 1 (?pcs ! v_record v1)"
    using wr sets by (simp add: entry_sel)
  have w2: "pcs' ! v_record v2 = write_record 1 (?pcs ! v_record v2)"
    using wr sets by (simp add: entry_sel)
  have run: "calculate_token_prices_with 3 ?pcs =
    Inr \<lparr>returned = True, records = pcs',
         printed_final_sum = Some 10, printed_mismatch = Some 7\<rparr>"
    using calculate_run [OF valid _ al up] ws' by simp
  from rounded al ms run w1 w2 show ?thesis
    by (intro exI [of _ ?t1] exI [of _ ?t2] exI [of _ ?allocs]
        exI [of _ "\<lparr>returned = True, records = pcs',
         printed_final_sum = Some 10, printed_mismatch = Some 7\<rparr>"]) simp
qed

lemma scenario_d_valid:
  "valid_records [row (py ''a'') (py ''1'') (py ''5''), row (py ''b'') (py ''1'') (py ''5'')] =
     Inr [\<lparr>v_record = 0, v_pvp = 1, v_stock_initial = 5\<rparr>,
          \<lparr>v_record = 1, v_pvp = 1, v_stock_initial = 5\<rparr>]"
  by (simp add: filter_defs)

theorem scenario_d_witness:
  "valid_records [row (py ''a'') (py ''1'') (py ''5''), row (py ''b'') (py ''1'') (py ''5'')] =
     Inr [\<lparr>v_record = 0, v_pvp = 1, v_stock_initial = 5\<rparr>,
          \<lparr>v_record = 1, v_pvp = 1, v_stock_initial = 5\<rparr>]
   \<and> (\<exists>out. calculate_token_prices_with 3 [row (py ''a'') (py ''1'') (py ''5''), row (py ''b'') (py ''1'') (py ''5'')] = Inr out
        \<and> returned out \<and> printed_final_sum out = Some 10 \<and> printed_mismatch out = Some 7
        \<and> records out ! 0 = write_record 1 (row (py ''a'') (py ''1'') (py ''5''))
        \<and> records out ! 1 = write_record 1 (row (py ''b'') (py ''1'') (py ''5'')))"
proof -
  have id1: "([row (py ''a'') (py ''1'') (py ''5''), row (py ''b'') (py ''1'') (py ''5'')] !
      v_record \<lparr>v_record = 0, v_pvp = 1, v_stock_initial = 5\<rparr>) (py ''_id'') = Some (Str (py ''a''))"
    by (simp add: row_def)
  have id2: "([row (py ''a'') (py ''1'') (py ''5''), row (py ''b'') (py ''1'') (py ''5'')] !
      v_record \<lparr>v_record = 1, v_pvp = 1, v_stock_initial = 5\<rparr>) (py ''_id'') = Some (Str (py ''b''))"
    by (simp add: row_def)
  from scenario_d [OF scenario_d_valid _ _ id1 id2] scenario_d_valid show ?thesis
    by auto
qed

subsection \<open>The coarse pass and its specification\<close>

lemma py_sort_reverse_stable_descending:
  "py_sort_reverse key xs = sort_key (\<lambda>x. - key x) xs"
proof -
  let ?ys = "rev (sort_key key (rev xs))"
  have m: "mset ?ys = mset xs" by simp
  have st: "\<And>k. k \<in> set ?ys \<Longrightarrow>
      filter (\<lambda>x. - key k = - key x) ?ys = filter (\<lambda>x. - key k = - key x) xs"
  proof -
    fix k
    have "filter (\<lambda>x. key x = key k) (sort_key key (rev xs)) =
        filter (\<lambda>x. key x = key k) (rev xs)"
      by (rule sort_key_stable)
    then have "rev (filter (\<lambda>x. key x = key k) (sort_key key (rev xs))) =
        rev (filter (\<lambda>x. key x = key k) (rev xs))"
      by (simp only:)
    then have "filter (\<lambda>x. key x = key k) ?ys = filter (\<lambda>x. key x = key k) xs"
      by (simp add: rev_filter)
    moreover have "(\<lambda>x. - key k = - key x) = (\<lambda>x. key x = key k)"
      by auto
    ultimately show "filter (\<lambda>x. - key k = - key x) ?ys = filter (\<lambda>x. - key k = - key x) xs"
      by (simp only:)
  qed
  have "sorted (map key (sort_key key (rev xs)))" by simp
  then have "sorted_wrt (\<lambda>x y. key x \<le> key y) (sort_key key (rev xs))"
    by (simp add: sorted_wrt_map)
  then have "sorted_wrt (\<lambda>x y. - key x \<le> - key y) ?ys"
    by (simp add: sorted_wrt_rev)
  then have so: "sorted (map (\<lambda>x. - key x) ?ys)"
    by (simp add: sorted_wrt_map)
  from properties_for_sort_key [of ?ys xs "\<lambda>x. - key x", OF m st so] show ?thesis
    by (simp add: py_sort_reverse_def)
qed

lemma increase_adjust: "increase a = adjust 1 a"
  by (simp add: increase_def adjust_def Let_def)

lemma decrease_adjust: "decrease a = adjust (- 1) a"
  by (simp add: decrease_def adjust_def Let_def)

lemma increase_loop_walk: "0 < i \<Longrightarrow> increase_loop d xs = coarse_walk i d xs"
  by (induction xs arbitrary: d) (simp_all add: Let_def matching_sign_def increase_adjust)

lemma decrease_loop_walk: "i < 0 \<Longrightarrow> decrease_loop d xs = coarse_walk i d xs"
  by (induction xs arbitrary: d) (auto simp: Let_def matching_sign_def decrease_adjust)

lemma coarse_walk_stop: "\<not> matching_sign i d \<Longrightarrow> coarse_walk i d xs = (xs, d)"
  by (induction xs) simp_all

lemma decrease_loop_stop: "0 \<le> d \<Longrightarrow> decrease_loop d xs = (xs, d)"
  by (induction xs) simp_all

lemma coarse_walk_append:
  "coarse_walk i d (ys @ zs) =
     (fst (coarse_walk i d ys) @ fst (coarse_walk i (snd (coarse_walk i d ys)) zs),
      snd (coarse_walk i (snd (coarse_walk i d ys)) zs))"
  by (induction ys arbitrary: d) (simp_all add: Let_def)

lemma coarse_pass_is_spec: "coarse_pass d xs = coarse_pass_spec d xs"
proof -
  let ?s = "sort_key (\<lambda>x. - rounding_error x) xs"
  consider (pos) "0 < d" | (neg) "d < 0" | (zero) "d = 0" by linarith
  then show ?thesis
  proof cases
    case pos
    with increase_loop_walk [OF pos, of d ?s] show ?thesis
      by (simp add: coarse_pass_def coarse_pass_spec_def py_sort_reverse_stable_descending)
  next
    case neg
    with decrease_loop_walk [OF neg, of d ?s] show ?thesis
      by (simp add: coarse_pass_def coarse_pass_spec_def py_sort_reverse_stable_descending)
  next
    case zero
    then have "\<not> matching_sign d d" by (simp add: matching_sign_def)
    from coarse_walk_stop [OF this, of ?s] decrease_loop_stop [of d ?s] zero show ?thesis
      by (simp add: coarse_pass_def coarse_pass_spec_def py_sort_reverse_stable_descending)
  qed
qed

text \<open>
  C5. The coarse pass of the source is the coarse pass of the specification: the list
  sorted by \<^verbatim>\<open>sort(key=..., reverse=True)\<close> is the stable ordering by descending rounding
  error, and the sweep chosen by the sign of the difference is the single walk described
  there. The pass is what the redistribution runs first when the difference after the
  initial rounding is not zero. Once the residual has lost the sign it started with,
  after any prefix of the ordered list, the rest of the list is left as it is.
\<close>

theorem coarse_pass_follows_spec:
  "coarse_pass residual allocs = coarse_pass_spec residual allocs \<and>
   (of_int target - weighted_sum allocs \<noteq> 0 \<longrightarrow>
      redistribute target allocs =
        fine_pass target (fst (coarse_pass_spec (of_int target - weighted_sum allocs) allocs))) \<and>
   (\<forall>ys zs. sort_key (\<lambda>x. - rounding_error x) allocs = ys @ zs \<longrightarrow>
      \<not> matching_sign residual (snd (coarse_walk residual residual ys)) \<longrightarrow>
      fst (coarse_pass residual allocs) = fst (coarse_walk residual residual ys) @ zs)"
proof (intro conjI allI impI)
  show "coarse_pass residual allocs = coarse_pass_spec residual allocs"
    by (rule coarse_pass_is_spec)
next
  assume "of_int target - weighted_sum allocs \<noteq> 0"
  then show "redistribute target allocs =
      fine_pass target (fst (coarse_pass_spec (of_int target - weighted_sum allocs) allocs))"
    by (simp add: redistribute_def Let_def coarse_pass_is_spec)
next
  fix ys zs
  assume split: "sort_key (\<lambda>x. - rounding_error x) allocs = ys @ zs"
    and stop: "\<not> matching_sign residual (snd (coarse_walk residual residual ys))"
  have "coarse_pass residual allocs = coarse_walk residual residual (ys @ zs)"
    by (simp add: coarse_pass_is_spec coarse_pass_spec_def split)
  then show "fst (coarse_pass residual allocs) = fst (coarse_walk residual residual ys) @ zs"
    by (simp add: coarse_walk_append coarse_walk_stop [OF stop])
qed

theorem coarse_pass_follows_spec_witness:
  "of_int 11000 - weighted_sum [entry 0 (11 / 8) 1 5000, entry 1 (11 / 8) 1 3000] \<noteq> 0
   \<and> sort_key (\<lambda>x. - rounding_error x) [entry 0 (11 / 8) 1 5000, entry 1 (11 / 8) 1 3000] =
       [entry 0 (11 / 8) 1 5000] @ [entry 1 (11 / 8) 1 3000]
   \<and> \<not> matching_sign 3000 (snd (coarse_walk 3000 3000 [entry 0 (11 / 8) 1 5000]))
   \<and> coarse_pass 3000 [entry 0 (11 / 8) 1 5000, entry 1 (11 / 8) 1 3000] =
       coarse_pass_spec 3000 [entry 0 (11 / 8) 1 5000, entry 1 (11 / 8) 1 3000]
   \<and> redistribute 11000 [entry 0 (11 / 8) 1 5000, entry 1 (11 / 8) 1 3000] =
       fine_pass 11000 (fst (coarse_pass_spec
         (of_int 11000 - weighted_sum [entry 0 (11 / 8) 1 5000, entry 1 (11 / 8) 1 3000])
         [entry 0 (11 / 8) 1 5000, entry 1 (11 / 8) 1 3000]))
   \<and> fst (coarse_pass 3000 [entry 0 (11 / 8) 1 5000, entry 1 (11 / 8) 1 3000]) =
       fst (coarse_walk 3000 3000 [entry 0 (11 / 8) 1 5000]) @ [entry 1 (11 / 8) 1 3000]
   \<and> fst (coarse_walk 3000 3000 [entry 0 (11 / 8) 1 5000]) = [entry 0 (11 / 8) 2 5000]"
proof -
  let ?A = "[entry 0 (11 / 8) 1 5000, entry 1 (11 / 8) 1 3000]"
  have h1: "of_int 11000 - weighted_sum ?A \<noteq> 0"
    by (simp add: weighted_sum_def entry_sel)
  have h2: "sort_key (\<lambda>x. - rounding_error x) ?A =
      [entry 0 (11 / 8) 1 5000] @ [entry 1 (11 / 8) 1 3000]"
    by (simp add: rounding_error_entry)
  have w: "coarse_walk 3000 3000 [entry 0 (11 / 8) 1 5000] = ([entry 0 (11 / 8) 2 5000], - 2000)"
    by (simp add: matching_sign_def entry_sel increase_adjust [symmetric] increase_entry)
  have h3: "\<not> matching_sign 3000 (snd (coarse_walk 3000 3000 [entry 0 (11 / 8) 1 5000]))"
    by (simp only: w snd_conv) (simp add: matching_sign_def)
  have h4: "fst (coarse_walk 3000 3000 [entry 0 (11 / 8) 1 5000]) = [entry 0 (11 / 8) 2 5000]"
    by (simp only: w fst_conv)
  from coarse_pass_follows_spec [of 3000 ?A 11000] h1 h2 h3 h4 show ?thesis
    by blast
qed

subsection \<open>Exactness for a common multiplicity\<close>


lemma synced_increase: "synced m a \<Longrightarrow> synced m (increase a)"
  by (simp add: synced_def increase_def Let_def)































end
